theory Spec2Isabelle
  imports Main
begin

section \<open>Strings as the handlers use them\<close>

text \<open>
  A JavaScript string is a sequence of UTF-16 code units. A \<^typ>\<open>char\<close> stands for the
  code unit with the same number, so \<^typ>\<open>string\<close> holds the strings whose code units
  are below \<open>0x100\<close>: ASCII and the Latin-1 supplement. \<open>toLowerCase\<close> and \<open>trim\<close> are
  modelled in full on that range. \<open>null\<close> and \<open>undefined\<close> are \<open>None\<close>, and a value is
  falsy when it is \<open>None\<close> or the empty string.
\<close>

text \<open>The letters below \<open>0x100\<close> that \<open>toLowerCase\<close> changes: \<open>A\<close> to \<open>Z\<close>, and
  \<open>U+00C0\<close> to \<open>U+00DE\<close> without the multiplication sign \<open>U+00D7\<close>. Each goes to the
  code unit \<open>0x20\<close> above it.\<close>

definition upperCaseLetters :: string where
  "upperCaseLetters =
     ''ABCDEFGHIJKLMNOPQRSTUVWXYZ'' @
     [CHR 0xC0, CHR 0xC1, CHR 0xC2, CHR 0xC3, CHR 0xC4, CHR 0xC5, CHR 0xC6, CHR 0xC7,
      CHR 0xC8, CHR 0xC9, CHR 0xCA, CHR 0xCB, CHR 0xCC, CHR 0xCD, CHR 0xCE, CHR 0xCF,
      CHR 0xD0, CHR 0xD1, CHR 0xD2, CHR 0xD3, CHR 0xD4, CHR 0xD5, CHR 0xD6,
      CHR 0xD8, CHR 0xD9, CHR 0xDA, CHR 0xDB, CHR 0xDC, CHR 0xDD, CHR 0xDE]"

definition lowerCaseLetters :: string where
  "lowerCaseLetters =
     ''abcdefghijklmnopqrstuvwxyz'' @
     [CHR 0xE0, CHR 0xE1, CHR 0xE2, CHR 0xE3, CHR 0xE4, CHR 0xE5, CHR 0xE6, CHR 0xE7,
      CHR 0xE8, CHR 0xE9, CHR 0xEA, CHR 0xEB, CHR 0xEC, CHR 0xED, CHR 0xEE, CHR 0xEF,
      CHR 0xF0, CHR 0xF1, CHR 0xF2, CHR 0xF3, CHR 0xF4, CHR 0xF5, CHR 0xF6,
      CHR 0xF8, CHR 0xF9, CHR 0xFA, CHR 0xFB, CHR 0xFC, CHR 0xFD, CHR 0xFE]"

definition toLowerCaseChar :: "char \<Rightarrow> char" where
  "toLowerCaseChar c =
     (case map_of (zip upperCaseLetters lowerCaseLetters) c of
        None \<Rightarrow> c
      | Some l \<Rightarrow> l)"

definition toLowerCase :: "string \<Rightarrow> string" where
  "toLowerCase s = map toLowerCaseChar s"

text \<open>\<open>s.split(sep)\<close> for a one-character separator: \<open>"".split(" ")\<close> is \<open>[""]\<close>.\<close>

fun split :: "char \<Rightarrow> string \<Rightarrow> string list" where
  "split sep [] = [[]]"
| "split sep (c # cs) =
     (if c = sep then [] # split sep cs
      else (case split sep cs of [] \<Rightarrow> [[c]] | t # ts \<Rightarrow> (c # t) # ts))"

fun join :: "string \<Rightarrow> string list \<Rightarrow> string" where
  "join sep [] = []"
| "join sep [t] = t"
| "join sep (t # u # ts) = t @ sep @ join sep (u # ts)"

text \<open>The white space and line terminators below \<open>0x100\<close>, which \<open>trim\<close> removes: tab,
  line feed, vertical tab, form feed, carriage return, space and the no-break space
  \<open>U+00A0\<close>.\<close>

definition isWhiteSpace :: "char \<Rightarrow> bool" where
  "isWhiteSpace c =
     (c \<in> set [CHR 0x09, CHR 0x0A, CHR 0x0B, CHR 0x0C, CHR 0x0D, CHR '' '', CHR 0xA0])"

definition trim :: "string \<Rightarrow> string" where
  "trim s = rev (dropWhile isWhiteSpace (rev (dropWhile isWhiteSpace s)))"

subsection \<open>helpers/reformatCategoryName.js\<close>

definition reformatCategoryNameInput :: "string option \<Rightarrow> string option" where
  "reformatCategoryNameInput name =
     (case name of
        None \<Rightarrow> None
      | Some n \<Rightarrow>
          if n = [] then None
          else
            (let lowerCaseName = toLowerCase n in
             if length (split CHR '' '' lowerCaseName) \<ge> 2
             then Some (trim (join ''_'' (split CHR '' '' lowerCaseName)))
             else Some lowerCaseName))"

definition reformatCategoryNameResponse :: "string option \<Rightarrow> string option" where
  "reformatCategoryNameResponse name =
     (case name of
        None \<Rightarrow> None
      | Some n \<Rightarrow>
          if n = [] then None
          else
            (let lowerCaseName = toLowerCase n in
             if length (split CHR ''_'' lowerCaseName) \<ge> 2
             then Some (trim (join '' '' (split CHR ''_'' lowerCaseName)))
             else Some lowerCaseName))"

section \<open>JSON.parse on the categoryIds query parameter\<close>

text \<open>
  \<open>getProducts\<close> hands the raw query string to \<open>JSON.parse\<close>. The model recognises the
  JSON grammar (white space, the six structural characters, strings with their escapes,
  numbers with optional fraction and exponent, and the three literals) and throws
  \<open>SyntaxError\<close> on any other text. Of the values it keeps what the endpoint documents,
  an array of integer literals; every other JSON value is \<open>OtherValue\<close>.
\<close>

datatype js_error = SyntaxError | DatabaseError | DriverError

datatype token =
    LBracket | RBracket | LBrace | RBrace | Comma | Colon
  | TString | TNumber "int option" | TLiteral

definition isJsonWhiteSpace :: "char \<Rightarrow> bool" where
  "isJsonWhiteSpace c = (c \<in> set [CHR '' '', CHR 0x09, CHR 0x0A, CHR 0x0D])"

definition isDigit :: "char \<Rightarrow> bool" where
  "isDigit c = (c \<in> set ''0123456789'')"

definition isHexDigit :: "char \<Rightarrow> bool" where
  "isHexDigit c = (c \<in> set ''0123456789abcdefABCDEF'')"

definition digitValue :: "char \<Rightarrow> int" where
  "digitValue c =
     (case map_of (zip ''0123456789'' [0, 1, 2, 3, 4, 5, 6, 7, 8, 9]) c of
        None \<Rightarrow> 0
      | Some d \<Rightarrow> d)"

definition decimalValue :: "string \<Rightarrow> int" where
  "decimalValue ds = foldl (\<lambda>acc d. 10 * acc + digitValue d) 0 ds"

text \<open>The text after the closing quote of a string literal whose opening quote has been
  read; \<open>None\<close> when the literal is malformed or unterminated.\<close>

fun stringRest :: "string \<Rightarrow> string option" where
  "stringRest [] = None"
| "stringRest (c # cs) =
     (if c = CHR 0x22 then Some cs
      else if c = CHR 0x5C then
        (case cs of
           [] \<Rightarrow> None
         | e # es \<Rightarrow>
             if e \<in> set [CHR 0x22, CHR 0x5C, CHR ''/'', CHR ''b'', CHR ''f'', CHR ''n'',
                          CHR ''r'', CHR ''t'']
             then stringRest es
             else if e = CHR ''u'' then
               (case es of
                  h1 # h2 # h3 # h4 # r \<Rightarrow>
                    if isHexDigit h1 \<and> isHexDigit h2 \<and> isHexDigit h3 \<and> isHexDigit h4
                    then stringRest r
                    else None
                | _ \<Rightarrow> None)
             else None)
      else if (of_char c :: nat) < 32 then None
      else stringRest cs)"

definition intPart :: "string \<Rightarrow> (string \<times> string) option" where
  "intPart s =
     (case s of
        [] \<Rightarrow> None
      | c # r \<Rightarrow>
          if c = CHR ''0'' then Some ([c], r)
          else if isDigit c then Some (takeWhile isDigit s, dropWhile isDigit s)
          else None)"

definition fracPart :: "string \<Rightarrow> (bool \<times> string) option" where
  "fracPart s =
     (case s of
        [] \<Rightarrow> Some (False, s)
      | c # r \<Rightarrow>
          if c = CHR ''.'' then
            (if takeWhile isDigit r = [] then None else Some (True, dropWhile isDigit r))
          else Some (False, s))"

definition expPart :: "string \<Rightarrow> (bool \<times> string) option" where
  "expPart s =
     (case s of
        [] \<Rightarrow> Some (False, s)
      | c # r \<Rightarrow>
          if c = CHR ''e'' \<or> c = CHR ''E'' then
            (let r' = (case r of
                         [] \<Rightarrow> r
                       | sg # r'' \<Rightarrow> if sg = CHR ''+'' \<or> sg = CHR ''-'' then r'' else r)
             in if takeWhile isDigit r' = [] then None else Some (True, dropWhile isDigit r'))
          else Some (False, s))"

text \<open>A number literal at the head of the text: its value when it is an integer literal
  (no fraction, no exponent), and the text after it.\<close>

definition numberRest :: "string \<Rightarrow> (int option \<times> string) option" where
  "numberRest s =
     (let (neg, s1) = (case s of
                         [] \<Rightarrow> (False, s)
                       | c # r \<Rightarrow> if c = CHR ''-'' then (True, r) else (False, s))
      in case intPart s1 of
           None \<Rightarrow> None
         | Some (ds, s2) \<Rightarrow>
             (case fracPart s2 of
                None \<Rightarrow> None
              | Some (frac, s3) \<Rightarrow>
                  (case expPart s3 of
                     None \<Rightarrow> None
                   | Some (ex, s4) \<Rightarrow>
                       Some (if frac \<or> ex then None
                             else Some (if neg then - decimalValue ds else decimalValue ds),
                             s4))))"

lemma stringRest_shorter: "stringRest s = Some r \<Longrightarrow> length r < length s"
  by (induction s arbitrary: r rule: stringRest.induct)
     (fastforce split: if_splits list.splits)+

lemma intPart_shorter: "intPart s = Some (ds, r) \<Longrightarrow> length r < length s"
proof (cases s)
  case Nil
  then show "intPart s = Some (ds, r) \<Longrightarrow> ?thesis" by (simp add: intPart_def)
next
  case (Cons c cs)
  assume "intPart s = Some (ds, r)"
  then have "r = cs \<or> (isDigit c \<and> r = dropWhile isDigit cs)"
    using Cons by (auto simp: intPart_def split: if_splits)
  then show ?thesis
    using Cons length_dropWhile_le [of isDigit cs] by auto
qed

lemma fracPart_shorter: "fracPart s = Some (b, r) \<Longrightarrow> length r \<le> length s"
proof (cases s)
  case Nil
  then show "fracPart s = Some (b, r) \<Longrightarrow> ?thesis" by (simp add: fracPart_def)
next
  case (Cons c cs)
  assume "fracPart s = Some (b, r)"
  then have "r = s \<or> r = dropWhile isDigit cs"
    using Cons by (auto simp: fracPart_def split: if_splits)
  then show ?thesis
    using Cons length_dropWhile_le [of isDigit cs] by auto
qed

lemma expPart_shorter: "expPart s = Some (b, r) \<Longrightarrow> length r \<le> length s"
proof (cases s)
  case Nil
  then show "expPart s = Some (b, r) \<Longrightarrow> ?thesis" by (simp add: expPart_def)
next
  case (Cons c cs)
  assume "expPart s = Some (b, r)"
  then have "r = s \<or> r = dropWhile isDigit cs \<or> r = dropWhile isDigit (tl cs)"
    using Cons by (auto simp: expPart_def Let_def split: if_splits list.splits)
  then show ?thesis
    using Cons length_dropWhile_le [of isDigit cs] length_dropWhile_le [of isDigit "tl cs"]
    by auto
qed

lemma numberRest_shorter: "numberRest s = Some (v, r) \<Longrightarrow> length r < length s"
proof -
  assume a: "numberRest s = Some (v, r)"
  obtain neg s1 where s1: "(case s of [] \<Rightarrow> (False, s)
      | c # r \<Rightarrow> if c = CHR ''-'' then (True, r) else (False, s)) = (neg, s1)"
    by fastforce
  have l1: "length s1 \<le> length s"
    using s1 by (auto split: list.splits if_splits)
  from a s1 obtain ds s2 fr s3 ex where
    "intPart s1 = Some (ds, s2)" "fracPart s2 = Some (fr, s3)" "expPart s3 = Some (ex, r)"
    by (auto simp: numberRest_def split: option.splits prod.splits)
  then have "length s2 < length s1" "length s3 \<le> length s2" "length r \<le> length s3"
    by (auto dest: intPart_shorter fracPart_shorter expPart_shorter)
  with l1 show ?thesis by linarith
qed

function lex :: "string \<Rightarrow> token list option" where
  "lex [] = Some []"
| "lex (c # cs) =
     (if isJsonWhiteSpace c then lex cs
      else if c = CHR ''['' then map_option ((#) LBracket) (lex cs)
      else if c = CHR '']'' then map_option ((#) RBracket) (lex cs)
      else if c = CHR ''{'' then map_option ((#) LBrace) (lex cs)
      else if c = CHR ''}'' then map_option ((#) RBrace) (lex cs)
      else if c = CHR '','' then map_option ((#) Comma) (lex cs)
      else if c = CHR '':'' then map_option ((#) Colon) (lex cs)
      else if c = CHR 0x22 then
        (case stringRest cs of
           None \<Rightarrow> None
         | Some r \<Rightarrow> map_option ((#) TString) (lex r))
      else if c = CHR ''-'' \<or> isDigit c then
        (case numberRest (c # cs) of
           None \<Rightarrow> None
         | Some (v, r) \<Rightarrow> map_option ((#) (TNumber v)) (lex r))
      else if take 4 (c # cs) = ''true'' then map_option ((#) TLiteral) (lex (drop 3 cs))
      else if take 5 (c # cs) = ''false'' then map_option ((#) TLiteral) (lex (drop 4 cs))
      else if take 4 (c # cs) = ''null'' then map_option ((#) TLiteral) (lex (drop 3 cs))
      else None)"
  by pat_completeness auto
termination
proof (relation "measure length", goal_cases)
  case (9 c cs r)
  then show ?case using stringRest_shorter [of cs r] by simp
next
  case (10 c cs x2 v r)
  then show ?case using numberRest_shorter [of "c # cs" v r] by simp
qed simp_all

text \<open>The grammar over tokens, as a pushdown recogniser: what may come next, and the
  containers that are open.\<close>

datatype container = InArray | InObject

datatype expect = Value | ValueOrEnd | KeyOrEnd | Key | ColonNext | CommaOrEnd | Done

definition afterValue :: "container list \<Rightarrow> expect" where
  "afterValue st = (if st = [] then Done else CommaOrEnd)"

definition closeContainer ::
  "container \<Rightarrow> container list \<Rightarrow> (expect \<times> container list) option" where
  "closeContainer k st =
     (case st of
        [] \<Rightarrow> None
      | k' # st' \<Rightarrow> if k' = k then Some (afterValue st', st') else None)"

definition startValue :: "container list \<Rightarrow> token \<Rightarrow> (expect \<times> container list) option" where
  "startValue st t =
     (case t of
        TString \<Rightarrow> Some (afterValue st, st)
      | TNumber v \<Rightarrow> Some (afterValue st, st)
      | TLiteral \<Rightarrow> Some (afterValue st, st)
      | LBracket \<Rightarrow> Some (ValueOrEnd, InArray # st)
      | LBrace \<Rightarrow> Some (KeyOrEnd, InObject # st)
      | _ \<Rightarrow> None)"

fun parseStep ::
  "expect \<Rightarrow> container list \<Rightarrow> token \<Rightarrow> (expect \<times> container list) option" where
  "parseStep Value st t = startValue st t"
| "parseStep ValueOrEnd st t =
     (if t = RBracket then closeContainer InArray st else startValue st t)"
| "parseStep KeyOrEnd st t =
     (if t = RBrace then closeContainer InObject st
      else if t = TString then Some (ColonNext, st)
      else None)"
| "parseStep Key st t = (if t = TString then Some (ColonNext, st) else None)"
| "parseStep ColonNext st t = (if t = Colon then Some (Value, st) else None)"
| "parseStep CommaOrEnd st t =
     (if t = Comma then
        (case st of
           [] \<Rightarrow> None
         | InArray # _ \<Rightarrow> Some (Value, st)
         | InObject # _ \<Rightarrow> Some (Key, st))
      else if t = RBracket then closeContainer InArray st
      else if t = RBrace then closeContainer InObject st
      else None)"
| "parseStep Done st t = None"

fun wellFormed :: "expect \<Rightarrow> container list \<Rightarrow> token list \<Rightarrow> bool" where
  "wellFormed e st [] = (e = Done)"
| "wellFormed e st (t # ts) =
     (case parseStep e st t of
        None \<Rightarrow> False
      | Some (e', st') \<Rightarrow> wellFormed e' st' ts)"

fun idElements :: "token list \<Rightarrow> int list option" where
  "idElements [TNumber (Some n), RBracket] = Some [n]"
| "idElements (TNumber (Some n) # Comma # ts) = map_option ((#) n) (idElements ts)"
| "idElements _ = None"

definition idArray :: "token list \<Rightarrow> int list option" where
  "idArray ts =
     (case ts of
        LBracket # r \<Rightarrow> if r = [RBracket] then Some [] else idElements r
      | _ \<Rightarrow> None)"

datatype json_value = IdArray "int list" | OtherValue

definition JSON_parse :: "string \<Rightarrow> js_error + json_value" where
  "JSON_parse s =
     (case lex s of
        None \<Rightarrow> Inl SyntaxError
      | Some ts \<Rightarrow>
          if wellFormed Value [] ts
          then Inr (case idArray ts of None \<Rightarrow> OtherValue | Some ids \<Rightarrow> IdArray ids)
          else Inl SyntaxError)"

section \<open>The database\<close>

subsection \<open>Schema\<close>

text \<open>
  The three tables of \<open>database/schema\<close> and the migrations. Timestamps are integers
  (milliseconds); a table is the list of its rows. Each \<open>serial\<close> column draws from a
  sequence, which is part of the state. Ids and prices are unbounded integers; the
  columns hold 32-bit ones.
\<close>

record product =
  p_id :: int
  p_name :: string
  p_price :: int
  p_createdAt :: int
  p_updatedAt :: int

record category =
  c_id :: int
  c_name :: string
  c_createdAt :: int

record productCategory =
  pc_productId :: int
  pc_categoryId :: int

record database =
  products :: "product list"
  categories :: "category list"
  productCategories :: "productCategory list"
  products_id_seq :: int
  categories_id_seq :: int

text \<open>The constraints the schema declares: primary keys, the unique names, and the two
  foreign keys of \<open>product_categories\<close>.\<close>

definition primaryKeysHold :: "database \<Rightarrow> bool" where
  "primaryKeysHold db \<longleftrightarrow>
     distinct (map p_id (products db)) \<and>
     distinct (map c_id (categories db)) \<and>
     distinct (productCategories db)"

definition uniqueNamesHold :: "database \<Rightarrow> bool" where
  "uniqueNamesHold db \<longleftrightarrow>
     distinct (map p_name (products db)) \<and> distinct (map c_name (categories db))"

definition foreignKeysHold :: "database \<Rightarrow> bool" where
  "foreignKeysHold db \<longleftrightarrow>
     list_all (\<lambda>r. pc_productId r \<in> set (map p_id (products db)) \<and>
                   pc_categoryId r \<in> set (map c_id (categories db)))
       (productCategories db)"

definition constraintsHold :: "database \<Rightarrow> bool" where
  "constraintsHold db \<longleftrightarrow> primaryKeysHold db \<and> uniqueNamesHold db \<and> foreignKeysHold db"

subsection \<open>Statements\<close>

text \<open>\<open>nextval\<close>: the value a sequence hands out is not given back when the transaction
  that drew it is rolled back.\<close>

definition nextvalProducts :: "database \<Rightarrow> int \<times> database" where
  "nextvalProducts db =
     (products_id_seq db + 1, db\<lparr>products_id_seq := products_id_seq db + 1\<rparr>)"

definition nextvalCategories :: "database \<Rightarrow> int \<times> database" where
  "nextvalCategories db =
     (categories_id_seq db + 1, db\<lparr>categories_id_seq := categories_id_seq db + 1\<rparr>)"

text \<open>\<open>insert(products).values(row).returning()\<close>: refused on a primary key or a name
  that is already there.\<close>

definition insertProduct :: "product \<Rightarrow> database \<Rightarrow> js_error + database" where
  "insertProduct row db =
     (if p_id row \<in> set (map p_id (products db)) \<or> p_name row \<in> set (map p_name (products db))
      then Inl DatabaseError
      else Inr (db\<lparr>products := products db @ [row]\<rparr>))"

definition insertCategory :: "category \<Rightarrow> database \<Rightarrow> js_error + database" where
  "insertCategory row db =
     (if c_id row \<in> set (map c_id (categories db)) \<or> c_name row \<in> set (map c_name (categories db))
      then Inl DatabaseError
      else Inr (db\<lparr>categories := categories db @ [row]\<rparr>))"

text \<open>\<open>insert(productCategories).values(rows)\<close>: the query builder throws on an empty
  list of values; the database refuses the statement as a whole when a row breaks a
  foreign key or the composite primary key.\<close>

definition insertProductCategories :: "productCategory list \<Rightarrow> database \<Rightarrow> js_error + database" where
  "insertProductCategories rows db =
     (if rows = [] then Inl DriverError
      else if list_all (\<lambda>r. pc_productId r \<in> set (map p_id (products db)) \<and>
                            pc_categoryId r \<in> set (map c_id (categories db)) \<and>
                            r \<notin> set (productCategories db)) rows \<and>
              distinct rows
      then Inr (db\<lparr>productCategories := productCategories db @ rows\<rparr>)
      else Inl DatabaseError)"

text \<open>\<open>update(products).set({...(name && {name}), ...(price && {price}), updatedAt})
  .where(eq(products.id, id)).returning()\<close>: a falsy name or price (absent, empty, zero)
  leaves the column alone. The statement is refused when the new name is the name of
  another product.\<close>

definition truthyString :: "string option \<Rightarrow> bool" where
  "truthyString s = (case s of None \<Rightarrow> False | Some t \<Rightarrow> t \<noteq> [])"

definition truthyNumber :: "int option \<Rightarrow> bool" where
  "truthyNumber n = (case n of None \<Rightarrow> False | Some v \<Rightarrow> v \<noteq> 0)"

definition setProductFields :: "string option \<Rightarrow> int option \<Rightarrow> int \<Rightarrow> product \<Rightarrow> product" where
  "setProductFields name price now p =
     p\<lparr>p_name := (if truthyString name then the name else p_name p),
       p_price := (if truthyNumber price then the price else p_price p),
       p_updatedAt := now\<rparr>"

definition updateProduct ::
  "int \<Rightarrow> string option \<Rightarrow> int option \<Rightarrow> int \<Rightarrow> database \<Rightarrow> js_error + (product list \<times> database)" where
  "updateProduct pid name price now db =
     (if truthyString name \<and> pid \<in> set (map p_id (products db)) \<and>
         the name \<in> set (map p_name (filter (\<lambda>p. p_id p \<noteq> pid) (products db)))
      then Inl DatabaseError
      else
        (let rows = map (\<lambda>p. if p_id p = pid then setProductFields name price now p else p)
                      (products db)
         in Inr (filter (\<lambda>p. p_id p = pid) rows, db\<lparr>products := rows\<rparr>)))"

definition deleteProductCategories :: "int \<Rightarrow> database \<Rightarrow> database" where
  "deleteProductCategories pid db =
     db\<lparr>productCategories := filter (\<lambda>r. pc_productId r \<noteq> pid) (productCategories db)\<rparr>"

text \<open>\<open>delete(products).where(eq(products.id, id)).returning()\<close>: the foreign key of
  \<open>product_categories\<close> cascades.\<close>

definition deleteProductRow :: "int \<Rightarrow> database \<Rightarrow> product list \<times> database" where
  "deleteProductRow pid db =
     (filter (\<lambda>p. p_id p = pid) (products db),
      db\<lparr>products := filter (\<lambda>p. p_id p \<noteq> pid) (products db),
         productCategories := filter (\<lambda>r. pc_productId r \<noteq> pid) (productCategories db)\<rparr>)"

subsection \<open>Queries\<close>

text \<open>\<open>from(products).innerJoin(productCategories, ...).innerJoin(categories, ...)\<close>.\<close>

definition productJoin :: "database \<Rightarrow> (product \<times> category) list" where
  "productJoin db =
     [(p, c). p \<leftarrow> products db,
              pc \<leftarrow> productCategories db, p_id p = pc_productId pc,
              c \<leftarrow> categories db, c_id c = pc_categoryId pc]"

text \<open>\<open>from(productCategories).innerJoin(products, ...).innerJoin(categories, ...)
  .where(eq(productCategories.productId, id))\<close>.\<close>

definition productWithCategories :: "int \<Rightarrow> database \<Rightarrow> (product \<times> category) list" where
  "productWithCategories pid db =
     [(p, c). pc \<leftarrow> productCategories db, pc_productId pc = pid,
              p \<leftarrow> products db, p_id p = pc_productId pc,
              c \<leftarrow> categories db, c_id c = pc_categoryId pc]"

text \<open>
  \<open>LIKE\<close> patterns: \<open>%\<close> stands for any text, \<open>_\<close> for any one character, a backslash
  takes the next pattern character literally. (PostgreSQL raises an error on a pattern
  that ends in a lone backslash; the patterns built here end in \<open>%\<close>.) \<open>ILIKE\<close> compares
  without regard to case: both sides are folded to lower case, here with the letters
  \<open>toLowerCase\<close> folds.
\<close>

fun likeMatch :: "string \<Rightarrow> string \<Rightarrow> bool" where
  "likeMatch [] t = (t = [])"
| "likeMatch (c # p) t =
     (if c = CHR ''%'' then
        (likeMatch p t \<or> (case t of [] \<Rightarrow> False | x # t' \<Rightarrow> likeMatch (c # p) t'))
      else if c = CHR 0x5C then
        (case p of
           [] \<Rightarrow> False
         | e # p' \<Rightarrow> (case t of [] \<Rightarrow> False | x # t' \<Rightarrow> x = e \<and> likeMatch p' t'))
      else
        (case t of [] \<Rightarrow> False | x # t' \<Rightarrow> (c = CHR ''_'' \<or> x = c) \<and> likeMatch p t'))"

definition ilike :: "string \<Rightarrow> string \<Rightarrow> bool" where
  "ilike text pattern = likeMatch (toLowerCase pattern) (toLowerCase text)"

text \<open>
  The select builder of the query library keeps one \<open>where\<close> slot: \<open>.where(c)\<close> assigns
  it, so a second call replaces the condition of the first.
\<close>

datatype whereCond = InArrayProductId "int list" | ILikeProductName string

record selectQuery =
  sq_where :: "whereCond option"

definition qb_where :: "whereCond \<Rightarrow> selectQuery \<Rightarrow> selectQuery" where
  "qb_where cond q = q\<lparr>sq_where := Some cond\<rparr>"

definition evalWhere :: "whereCond option \<Rightarrow> product \<times> category \<Rightarrow> bool" where
  "evalWhere w row =
     (case w of
        None \<Rightarrow> True
      | Some (InArrayProductId ids) \<Rightarrow> p_id (fst row) \<in> set ids
      | Some (ILikeProductName pattern) \<Rightarrow> ilike (p_name (fst row)) pattern)"

text \<open>Running the base query of \<open>getProducts\<close>: the join, the condition in the \<open>where\<close>
  slot, and \<open>orderBy(desc(products.createdAt))\<close>.\<close>

definition runBaseQuery :: "database \<Rightarrow> selectQuery \<Rightarrow> (product \<times> category) list" where
  "runBaseQuery db q =
     sort_key (\<lambda>row. - p_createdAt (fst row)) (filter (evalWhere (sq_where q)) (productJoin db))"

section \<open>Responses\<close>

text \<open>\<open>middlewares/setAuth.js\<close>: \<open>jwt.sign(payload, secret, {expiresIn})\<close> is kept as a
  term; the payload is \<open>{ id }\<close> and the expiry is in seconds. A cookie is an entry of
  the \<open>Set-Cookie\<close> header with its attributes.\<close>

datatype jwt = JwtSign (jwt_payload_id: int) (jwt_expiresIn: nat)

record cookie =
  ck_name :: string
  ck_value :: jwt
  ck_path :: string
  ck_maxAge :: nat
  ck_httpOnly :: bool
  ck_secure :: bool
  ck_sameSite :: string

definition setAuthCookies :: "int \<Rightarrow> cookie list" where
  "setAuthCookies payloadId =
     [\<lparr>ck_name = ''access_token'', ck_value = JwtSign payloadId 60, ck_path = ''/'',
       ck_maxAge = 60, ck_httpOnly = True, ck_secure = True, ck_sameSite = ''None''\<rparr>,
      \<lparr>ck_name = ''refresh_token'', ck_value = JwtSign payloadId (7 * 24 * 60 * 60),
       ck_path = ''/'', ck_maxAge = 604800, ck_httpOnly = True, ck_secure = True,
       ck_sameSite = ''None''\<rparr>]"

record categoryView =
  cv_id :: int
  cv_name :: "string option"

record productView =
  pv_id :: int
  pv_name :: string
  pv_price :: int
  pv_categories :: "categoryView list"

datatype payload =
    NoData
  | ProductList "productView list"
  | ProductDetail "product option" "categoryView list"
  | ProductRows "product list"
  | CategoryList "categoryView list"

record response =
  r_code :: nat
  r_message :: string
  r_status :: string
  r_data :: payload
  r_cookies :: "cookie list"

text \<open>What a handler does with a request: it sends a response, or it throws (the promise
  of the async handler is rejected and no JSON response is produced). \<open>OutOfModel\<close> marks
  a request outside the documented interface, which this development does not follow
  into the driver.\<close>

datatype outcome = Response response | Threw js_error | OutOfModel

definition jsonResponse :: "nat \<Rightarrow> string \<Rightarrow> string \<Rightarrow> payload \<Rightarrow> outcome" where
  "jsonResponse code message status body =
     Response \<lparr>r_code = code, r_message = message, r_status = status, r_data = body,
               r_cookies = []\<rparr>"

definition toCategoryView :: "category \<Rightarrow> categoryView" where
  "toCategoryView c =
     \<lparr>cv_id = c_id c, cv_name = reformatCategoryNameResponse (Some (c_name c))\<rparr>"

section \<open>controllers/productController.js\<close>

subsection \<open>getProducts\<close>

record productsQuery =
  q_categoryIds :: "string option"
  q_name :: "string option"

text \<open>\<open>if (categoryIds) categoryIds = JSON.parse(categoryIds)\<close>: an absent or empty
  parameter is not parsed.\<close>

definition parseCategoryIds :: "string option \<Rightarrow> js_error + json_value option" where
  "parseCategoryIds raw =
     (case raw of
        None \<Rightarrow> Inr None
      | Some s \<Rightarrow>
          if s = [] then Inr None
          else (case JSON_parse s of Inl e \<Rightarrow> Inl e | Inr v \<Rightarrow> Inr (Some v)))"

text \<open>The \<open>Map\<close> from product id to the \<open>Set\<close> of its matched category ids, in insertion
  order.\<close>

fun countMapAdd :: "(int \<times> int list) list \<Rightarrow> productCategory \<Rightarrow> (int \<times> int list) list" where
  "countMapAdd [] row = [(pc_productId row, [pc_categoryId row])]"
| "countMapAdd ((k, catSet) # m) row =
     (if k = pc_productId row
      then (k, if pc_categoryId row \<in> set catSet then catSet else catSet @ [pc_categoryId row]) # m
      else (k, catSet) # countMapAdd m row)"

definition countMap :: "productCategory list \<Rightarrow> (int \<times> int list) list" where
  "countMap rows = foldl countMapAdd [] rows"

definition matchingProductIds :: "database \<Rightarrow> int list \<Rightarrow> int list" where
  "matchingProductIds db categoryIds =
     (let rows = filter (\<lambda>r. pc_categoryId r \<in> set categoryIds) (productCategories db)
      in map fst
           (filter (\<lambda>(productId, catSet). list_all (\<lambda>i. i \<in> set catSet) categoryIds)
              (countMap rows)))"

text \<open>The \<open>Map\<close> from product id to its output record, in insertion order.\<close>

fun productMapAdd :: "productView list \<Rightarrow> product \<times> category \<Rightarrow> productView list" where
  "productMapAdd [] row =
     [\<lparr>pv_id = p_id (fst row), pv_name = p_name (fst row), pv_price = p_price (fst row),
       pv_categories = [toCategoryView (snd row)]\<rparr>]"
| "productMapAdd (v # m) row =
     (if pv_id v = p_id (fst row)
      then v\<lparr>pv_categories := pv_categories v @ [toCategoryView (snd row)]\<rparr> # m
      else v # productMapAdd m row)"

definition productMap :: "(product \<times> category) list \<Rightarrow> productView list" where
  "productMap rows = foldl productMapAdd [] rows"

text \<open>The handler from the parsed parameter on. (The second query of the source,
  \<open>newQuery\<close>, is awaited and never read.)\<close>

definition getProductsFiltered :: "database \<Rightarrow> int list \<Rightarrow> string option \<Rightarrow> outcome" where
  "getProductsFiltered db categoryIds productNameSearch =
     (let filtered = (categoryIds \<noteq> []);
          matching = (if filtered then matchingProductIds db categoryIds else [])
      in if filtered \<and> matching = []
         then jsonResponse 200 ''No products found'' ''success'' (ProductList [])
         else
           (let q0 = \<lparr>sq_where = None\<rparr>;
                q1 = (if filtered then qb_where (InArrayProductId matching) q0 else q0);
                q2 = (if truthyString productNameSearch
                      then qb_where (ILikeProductName (''%'' @ the productNameSearch @ ''%'')) q1
                      else q1);
                rows = runBaseQuery db q2
            in jsonResponse 200 ''Products fetched successfully'' ''success''
                 (ProductList (productMap rows))))"

definition getProducts :: "database \<Rightarrow> productsQuery \<Rightarrow> outcome" where
  "getProducts db req =
     (case parseCategoryIds (q_categoryIds req) of
        Inl e \<Rightarrow> Threw e
      | Inr None \<Rightarrow> getProductsFiltered db [] (q_name req)
      | Inr (Some (IdArray ids)) \<Rightarrow> getProductsFiltered db ids (q_name req)
      | Inr (Some OtherValue) \<Rightarrow> OutOfModel)"

subsection \<open>addProduct\<close>

record addRequest =
  a_name :: string
  a_price :: int
  a_categoryIds :: "int list"

text \<open>The transaction of \<open>addProduct\<close>: both inserts, or neither. (In the category check
  before it, \<open>inArray\<close> over an empty list of ids selects no row.)\<close>

definition addTransaction :: "product \<Rightarrow> int list \<Rightarrow> database \<Rightarrow> js_error + database" where
  "addTransaction row categoryIds db =
     (case insertProduct row db of
        Inl e \<Rightarrow> Inl e
      | Inr db1 \<Rightarrow>
          insertProductCategories
            (map (\<lambda>categoryId. \<lparr>pc_productId = p_id row, pc_categoryId = categoryId\<rparr>) categoryIds)
            db1)"

definition addProduct :: "int \<Rightarrow> database \<Rightarrow> addRequest \<Rightarrow> outcome \<times> database" where
  "addProduct now db req =
     (if filter (\<lambda>p. p_name p = a_name req) (products db) \<noteq> []
      then (jsonResponse 400 ''Product already exists'' ''error'' NoData, db)
      else if filter (\<lambda>c. c_id c \<in> set (a_categoryIds req)) (categories db) = []
      then (jsonResponse 400 ''Category not found'' ''error'' NoData, db)
      else
        (let (newId, db0) = nextvalProducts db;
             newProduct = \<lparr>p_id = newId, p_name = a_name req, p_price = a_price req,
                           p_createdAt = now, p_updatedAt = now\<rparr>
         in case addTransaction newProduct (a_categoryIds req) db0 of
              Inl e \<Rightarrow> (Threw e, db0)
            | Inr db' \<Rightarrow>
                (Response \<lparr>r_code = 200, r_message = ''Product added successfully'',
                           r_status = ''success'',
                           r_data = ProductDetail (Some newProduct)
                                      (map (\<lambda>row. toCategoryView (snd row))
                                         (productWithCategories (p_id newProduct) db')),
                           r_cookies = setAuthCookies (p_id newProduct)\<rparr>,
                 db')))"

subsection \<open>editProduct\<close>

record editRequest =
  e_id :: int
  e_name :: "string option"
  e_price :: "int option"
  e_categoryIds :: "int list option"

definition suppliedCategoryIds :: "editRequest \<Rightarrow> int list" where
  "suppliedCategoryIds req = (case e_categoryIds req of None \<Rightarrow> [] | Some ids \<Rightarrow> ids)"

definition editTransaction ::
  "int \<Rightarrow> editRequest \<Rightarrow> database \<Rightarrow> js_error + (product option \<times> database)" where
  "editTransaction now req db =
     (case updateProduct (e_id req) (e_name req) (e_price req) now db of
        Inl e \<Rightarrow> Inl e
      | Inr (returned, db1) \<Rightarrow>
          (let product = (case returned of [] \<Rightarrow> None | r # _ \<Rightarrow> Some r);
               categoryIds = suppliedCategoryIds req
           in if categoryIds \<noteq> [] then
                (let validCategoryIds =
                       map c_id (filter (\<lambda>c. c_id c \<in> set categoryIds) (categories db1));
                     db2 = deleteProductCategories (e_id req) db1
                 in case insertProductCategories
                           (map (\<lambda>categoryId. \<lparr>pc_productId = e_id req, pc_categoryId = categoryId\<rparr>)
                              validCategoryIds) db2 of
                      Inl e \<Rightarrow> Inl e
                    | Inr db3 \<Rightarrow> Inr (product, db3))
              else Inr (product, db1)))"

definition editProduct :: "int \<Rightarrow> database \<Rightarrow> editRequest \<Rightarrow> outcome \<times> database" where
  "editProduct now db req =
     (if filter (\<lambda>p. p_id p = e_id req) (products db) = []
      then (jsonResponse 404 ''Product not found'' ''error'' NoData, db)
      else
        (case editTransaction now req db of
           Inl e \<Rightarrow> (Threw e, db)
         | Inr (updatedProduct, db') \<Rightarrow>
             (jsonResponse 200 ''Product updated successfully'' ''success''
                (ProductDetail updatedProduct
                   (map (\<lambda>row. toCategoryView (snd row)) (productWithCategories (e_id req) db'))),
              db')))"

subsection \<open>deleteProduct\<close>

definition deleteProduct :: "database \<Rightarrow> int \<Rightarrow> outcome \<times> database" where
  "deleteProduct db pid =
     (if filter (\<lambda>p. p_id p = pid) (products db) = []
      then (jsonResponse 404 ''Product not found'' ''error'' NoData, db)
      else
        (let (deletedProduct, db') = deleteProductRow pid db
         in (jsonResponse 200 ''Product deleted successfully'' ''success''
               (ProductRows deletedProduct),
             db')))"

section \<open>controllers/categoryController.js\<close>

definition getCategories :: "database \<Rightarrow> outcome" where
  "getCategories db =
     jsonResponse 200 ''Categories fetched successfully'' ''success''
       (CategoryList (map toCategoryView (categories db)))"

definition addCategory :: "int \<Rightarrow> database \<Rightarrow> string option \<Rightarrow> outcome \<times> database" where
  "addCategory now db name =
     (if \<not> truthyString name
      then (jsonResponse 400 ''Name is required'' ''error'' NoData, db)
      else
        (case reformatCategoryNameInput name of
           None \<Rightarrow> (Threw DatabaseError, db)
         | Some formattedCategoryName \<Rightarrow>
             if filter (\<lambda>c. c_name c = formattedCategoryName) (categories db) \<noteq> []
             then (jsonResponse 400 ''Category already exists'' ''error'' NoData, db)
             else
               (let (newId, db0) = nextvalCategories db;
                    row = \<lparr>c_id = newId, c_name = formattedCategoryName, c_createdAt = now\<rparr>
                in case insertCategory row db0 of
                     Inl e \<Rightarrow> (Threw e, db0)
                   | Inr db' \<Rightarrow>
                       (jsonResponse 200 ''Category added successfully'' ''success''
                          (CategoryList [toCategoryView row]),
                        db'))))"

section \<open>Vocabulary of the properties\<close>

text \<open>The product ids a response lists.\<close>

definition listedProductIds :: "outcome \<Rightarrow> int list" where
  "listedProductIds out =
     (case out of
        Response r \<Rightarrow> (case r_data r of ProductList l \<Rightarrow> map pv_id l | _ \<Rightarrow> [])
      | _ \<Rightarrow> [])"

text \<open>The product has an association row with the category.\<close>

definition associated :: "database \<Rightarrow> int \<Rightarrow> int \<Rightarrow> bool" where
  "associated db productId categoryId \<longleftrightarrow>
     \<lparr>pc_productId = productId, pc_categoryId = categoryId\<rparr> \<in> set (productCategories db)"

text \<open>What the name filter of \<open>getProducts\<close> lets through: everything when the parameter
  is falsy, and otherwise the names that match \<open>%name%\<close> under \<open>ILIKE\<close>.\<close>

definition nameFilterAccepts :: "string option \<Rightarrow> string \<Rightarrow> bool" where
  "nameFilterAccepts productNameSearch productName \<longleftrightarrow>
     (if truthyString productNameSearch
      then ilike productName (''%'' @ the productNameSearch @ ''%'')
      else True)"

text \<open>A search text without the characters that \<open>LIKE\<close> reads as wild cards or escapes.\<close>

definition wildcardFree :: "string \<Rightarrow> bool" where
  "wildcardFree s = list_all (\<lambda>c. c \<notin> set [CHR ''%'', CHR ''_'', CHR 0x5C]) s"

text \<open>The category filter is absent: no parameter, an empty one, or an empty array.\<close>

definition categoryFilterAbsent :: "string option \<Rightarrow> bool" where
  "categoryFilterAbsent raw =
     (case raw of
        None \<Rightarrow> True
      | Some s \<Rightarrow> s = [] \<or> JSON_parse s = Inr (IdArray []))"

text \<open>Every product of the store has at least one association row.\<close>

definition everyProductCategorised :: "database \<Rightarrow> bool" where
  "everyProductCategorised db \<longleftrightarrow>
     list_all (\<lambda>p. p_id p \<in> set (map pc_productId (productCategories db))) (products db)"

text \<open>The category set the \<open>Map\<close> of \<open>getProducts\<close> holds for a product id.\<close>

definition catsOf :: "(int \<times> int list) list \<Rightarrow> int \<Rightarrow> int set" where
  "catsOf m k = (case map_of m k of None \<Rightarrow> {} | Some s \<Rightarrow> set s)"

text \<open>The condition left in the \<open>where\<close> slot of the base query.\<close>

definition whereSlot :: "database \<Rightarrow> int list \<Rightarrow> string option \<Rightarrow> whereCond option" where
  "whereSlot db categoryIds productNameSearch =
     (if truthyString productNameSearch
      then Some (ILikeProductName (''%'' @ the productNameSearch @ ''%''))
      else if categoryIds \<noteq> [] then Some (InArrayProductId (matchingProductIds db categoryIds))
      else None)"

text \<open>A state for the worked examples: three categories, three products.\<close>

definition exampleDb :: database where
  "exampleDb =
     \<lparr>products =
        [\<lparr>p_id = 20, p_name = ''4'', p_price = 3, p_createdAt = 100, p_updatedAt = 100\<rparr>,
         \<lparr>p_id = 21, p_name = ''Apple'', p_price = 5, p_createdAt = 200, p_updatedAt = 200\<rparr>,
         \<lparr>p_id = 22, p_name = ''apricot'', p_price = 7, p_createdAt = 300, p_updatedAt = 300\<rparr>],
      categories =
        [\<lparr>c_id = 1, c_name = ''electronics'', c_createdAt = 10\<rparr>,
         \<lparr>c_id = 2, c_name = ''books'', c_createdAt = 20\<rparr>,
         \<lparr>c_id = 4, c_name = ''female_clothing'', c_createdAt = 30\<rparr>],
      productCategories =
        [\<lparr>pc_productId = 20, pc_categoryId = 1\<rparr>,
         \<lparr>pc_productId = 20, pc_categoryId = 4\<rparr>,
         \<lparr>pc_productId = 21, pc_categoryId = 2\<rparr>,
         \<lparr>pc_productId = 22, pc_categoryId = 1\<rparr>],
      products_id_seq = 22,
      categories_id_seq = 4\<rparr>"

text \<open>The state after \<open>pear\<close> has been added to it with the categories 2 and 1.\<close>

definition exampleDbAfterAdd :: database where
  "exampleDbAfterAdd =
     exampleDb
       \<lparr>products := products exampleDb @
          [\<lparr>p_id = 23, p_name = ''pear'', p_price = 2, p_createdAt = 500, p_updatedAt = 500\<rparr>],
        productCategories := productCategories exampleDb @
          [\<lparr>pc_productId = 23, pc_categoryId = 2\<rparr>, \<lparr>pc_productId = 23, pc_categoryId = 1\<rparr>],
        products_id_seq := 23\<rparr>"

section \<open>Facts about the string functions\<close>

lemma toLowerCaseChar_cases:
  "toLowerCaseChar x = x \<or>
   (x \<in> set upperCaseLetters \<and> toLowerCaseChar x \<in> set lowerCaseLetters)"
proof (cases "map_of (zip upperCaseLetters lowerCaseLetters) x")
  case None
  then show ?thesis by (simp add: toLowerCaseChar_def)
next
  case (Some l)
  then have "(x, l) \<in> set (zip upperCaseLetters lowerCaseLetters)"
    by (rule map_of_SomeD)
  then have "x \<in> set upperCaseLetters" and "l \<in> set lowerCaseLetters"
    by (auto dest: set_zip_leftD set_zip_rightD)
  then show ?thesis using Some by (simp add: toLowerCaseChar_def)
qed

lemma toLowerCaseChar_eq_iff:
  assumes "c \<notin> set upperCaseLetters" and "c \<notin> set lowerCaseLetters"
  shows "toLowerCaseChar x = c \<longleftrightarrow> x = c"
  using assms toLowerCaseChar_cases [of x] by auto

lemma toLowerCase_append: "toLowerCase (a @ b) = toLowerCase a @ toLowerCase b"
  by (simp add: toLowerCase_def)

section \<open>Facts about the category filter\<close>

lemma countMapAdd_keys:
  "fst ` set (countMapAdd m r) = insert (pc_productId r) (fst ` set m)"
  by (induction m r rule: countMapAdd.induct) auto

lemma countMapAdd_distinct:
  "distinct (map fst m) \<Longrightarrow> distinct (map fst (countMapAdd m r))"
proof (induction m r rule: countMapAdd.induct)
  case (1 row)
  show ?case by simp
next
  case (2 k catSet m row)
  then show ?case
    using countMapAdd_keys [of m row] by (auto simp: image_iff)
qed

lemma countMapAdd_catsOf:
  "catsOf (countMapAdd m r) k =
     catsOf m k \<union> (if k = pc_productId r then {pc_categoryId r} else {})"
proof -
  have "map_of (countMapAdd m r) k =
        (if k = pc_productId r
         then Some (case map_of m k of
                      None \<Rightarrow> [pc_categoryId r]
                    | Some s \<Rightarrow> if pc_categoryId r \<in> set s then s else s @ [pc_categoryId r])
         else map_of m k)"
    by (induction m r rule: countMapAdd.induct) auto
  then show ?thesis
    by (cases "map_of m k") (auto simp: catsOf_def split: if_splits)
qed

lemma foldl_countMapAdd_keys:
  "fst ` set (foldl countMapAdd m rows) = fst ` set m \<union> pc_productId ` set rows"
  by (induction rows arbitrary: m) (auto simp: countMapAdd_keys)

lemma foldl_countMapAdd_distinct:
  "distinct (map fst m) \<Longrightarrow> distinct (map fst (foldl countMapAdd m rows))"
  by (induction rows arbitrary: m) (auto simp: countMapAdd_distinct)

lemma foldl_countMapAdd_catsOf:
  "catsOf (foldl countMapAdd m rows) k =
     catsOf m k \<union> {pc_categoryId r | r. r \<in> set rows \<and> pc_productId r = k}"
  by (induction rows arbitrary: m) (auto simp: countMapAdd_catsOf)

lemma countMap_entry_iff:
  "(k, s) \<in> set (countMap rows) \<longleftrightarrow> map_of (countMap rows) k = Some s"
proof -
  have "distinct (map fst (countMap rows))"
    unfolding countMap_def by (rule foldl_countMapAdd_distinct) simp
  then show ?thesis by (auto dest: map_of_SomeD)
qed

lemma countMap_catsOf:
  "catsOf (countMap rows) k = {pc_categoryId r | r. r \<in> set rows \<and> pc_productId r = k}"
  unfolding countMap_def foldl_countMapAdd_catsOf by (simp add: catsOf_def)

lemma countMap_keys: "fst ` set (countMap rows) = pc_productId ` set rows"
  unfolding countMap_def by (simp add: foldl_countMapAdd_keys)

lemma productCategory_eq:
  "(r :: productCategory) = \<lparr>pc_productId = pc_productId r, pc_categoryId = pc_categoryId r\<rparr>"
  by (cases r) simp

lemma associated_iff:
  "associated db k c \<longleftrightarrow>
     (\<exists>r \<in> set (productCategories db). pc_productId r = k \<and> pc_categoryId r = c)"
proof
  assume "associated db k c"
  then show "\<exists>r \<in> set (productCategories db). pc_productId r = k \<and> pc_categoryId r = c"
    unfolding associated_def by (intro bexI [of _ "\<lparr>pc_productId = k, pc_categoryId = c\<rparr>"]) simp_all
next
  assume "\<exists>r \<in> set (productCategories db). pc_productId r = k \<and> pc_categoryId r = c"
  then obtain r where r: "r \<in> set (productCategories db)" "pc_productId r = k" "pc_categoryId r = c"
    by blast
  then have "r = \<lparr>pc_productId = k, pc_categoryId = c\<rparr>"
    using productCategory_eq [of r] by simp
  with r show "associated db k c" by (simp add: associated_def)
qed

lemma matchingProductIds_iff:
  assumes "categoryIds \<noteq> []"
  shows "k \<in> set (matchingProductIds db categoryIds) \<longleftrightarrow>
         (\<forall>c \<in> set categoryIds. associated db k c)"
proof -
  let ?rows = "filter (\<lambda>r. pc_categoryId r \<in> set categoryIds) (productCategories db)"
  have cats: "catsOf (countMap ?rows) k = {c \<in> set categoryIds. associated db k c}"
    by (auto simp: countMap_catsOf associated_iff)
  have "k \<in> set (matchingProductIds db categoryIds) \<longleftrightarrow>
        (\<exists>s. (k, s) \<in> set (countMap ?rows) \<and> set categoryIds \<subseteq> set s)"
    by (auto simp: matchingProductIds_def Let_def list_all_iff image_iff)
  also have "\<dots> \<longleftrightarrow> (\<exists>s. map_of (countMap ?rows) k = Some s \<and> set categoryIds \<subseteq> set s)"
    by (simp add: countMap_entry_iff)
  also have "\<dots> \<longleftrightarrow> (map_of (countMap ?rows) k \<noteq> None \<and> set categoryIds \<subseteq> catsOf (countMap ?rows) k)"
    by (auto simp: catsOf_def)
  also have "\<dots> \<longleftrightarrow> (\<forall>c \<in> set categoryIds. associated db k c)"
  proof
    assume "map_of (countMap ?rows) k \<noteq> None \<and> set categoryIds \<subseteq> catsOf (countMap ?rows) k"
    then show "\<forall>c \<in> set categoryIds. associated db k c"
      using cats by auto
  next
    assume all: "\<forall>c \<in> set categoryIds. associated db k c"
    obtain c where c: "c \<in> set categoryIds"
      using assms by (cases categoryIds) auto
    then have "catsOf (countMap ?rows) k \<noteq> {}"
      using cats all by auto
    then have "map_of (countMap ?rows) k \<noteq> None"
      by (auto simp: catsOf_def)
    then show "map_of (countMap ?rows) k \<noteq> None \<and> set categoryIds \<subseteq> catsOf (countMap ?rows) k"
      using cats all by auto
  qed
  finally show ?thesis .
qed

lemma matchingProductIds_cong:
  "set categoryIds' = set categoryIds \<Longrightarrow>
   matchingProductIds db categoryIds' = matchingProductIds db categoryIds"
  by (simp add: matchingProductIds_def list_all_iff)

lemma productMapAdd_ids:
  "set (map pv_id (productMapAdd m row)) = insert (p_id (fst row)) (set (map pv_id m))"
  by (induction m row rule: productMapAdd.induct) auto

lemma productMap_ids: "set (map pv_id (productMap rows)) = (\<lambda>row. p_id (fst row)) ` set rows"
proof -
  have "set (map pv_id (foldl productMapAdd m rows)) =
        set (map pv_id m) \<union> (\<lambda>row. p_id (fst row)) ` set rows" for m
    by (induction rows arbitrary: m) (auto simp: productMapAdd_ids simp del: set_map)
  then show ?thesis by (simp add: productMap_def)
qed

lemma set_runBaseQuery:
  "set (runBaseQuery db q) = {row \<in> set (productJoin db). evalWhere (sq_where q) row}"
  by (auto simp: runBaseQuery_def)

lemma productJoin_iff:
  "(p, c) \<in> set (productJoin db) \<longleftrightarrow>
     p \<in> set (products db) \<and> c \<in> set (categories db) \<and> associated db (p_id p) (c_id c)"
proof -
  have "(p, c) \<in> set (productJoin db) \<longleftrightarrow>
        p \<in> set (products db) \<and> c \<in> set (categories db) \<and>
        (\<exists>r \<in> set (productCategories db). pc_productId r = p_id p \<and> pc_categoryId r = c_id c)"
      unfolding productJoin_def set_concat set_map
    by (auto split: if_splits simp: Bex_def)
  then show ?thesis by (simp add: associated_iff)
qed

lemma JSON_parse_empty: "JSON_parse [] = Inl SyntaxError"
  by (simp add: JSON_parse_def)

lemma getProducts_parsed:
  assumes "JSON_parse s = Inr (IdArray categoryIds)"
  shows "getProducts db \<lparr>q_categoryIds = Some s, q_name = nm\<rparr> =
         getProductsFiltered db categoryIds nm"
proof -
  have "s \<noteq> []" using assms JSON_parse_empty by auto
  then show ?thesis using assms by (simp add: getProducts_def parseCategoryIds_def)
qed

lemma getProducts_unparsed:
  assumes "raw = None \<or> raw = Some []"
  shows "getProducts db \<lparr>q_categoryIds = raw, q_name = nm\<rparr> = getProductsFiltered db [] nm"
  using assms by (auto simp: getProducts_def parseCategoryIds_def)

lemma listed_jsonResponse:
  "listedProductIds (jsonResponse code msg st (ProductList l)) = map pv_id l"
  by (simp add: listedProductIds_def jsonResponse_def)

lemma getProductsFiltered_eq:
  "getProductsFiltered db categoryIds nm =
     (if categoryIds \<noteq> [] \<and> matchingProductIds db categoryIds = []
      then jsonResponse 200 ''No products found'' ''success'' (ProductList [])
      else jsonResponse 200 ''Products fetched successfully'' ''success''
             (ProductList (productMap (runBaseQuery db \<lparr>sq_where = whereSlot db categoryIds nm\<rparr>))))"
  by (simp add: getProductsFiltered_def Let_def qb_where_def whereSlot_def)

lemma productMap_runBaseQuery_ids:
  "set (map pv_id (productMap (runBaseQuery db q))) =
     {p_id p | p c. (p, c) \<in> set (productJoin db) \<and> evalWhere (sq_where q) (p, c)}"
proof -
  have "set (map pv_id (productMap (runBaseQuery db q))) =
        (\<lambda>row. p_id (fst row)) ` {row \<in> set (productJoin db). evalWhere (sq_where q) row}"
    by (simp only: productMap_ids set_runBaseQuery)
  also have "\<dots> = {p_id p | p c. (p, c) \<in> set (productJoin db) \<and> evalWhere (sq_where q) (p, c)}"
    by force
  finally show ?thesis .
qed

lemma listed_unfiltered:
  "set (listedProductIds (getProductsFiltered db [] nm)) =
     {p_id p | p c. (p, c) \<in> set (productJoin db) \<and> nameFilterAccepts nm (p_name p)}"
  by (simp add: getProductsFiltered_eq listed_jsonResponse productMap_runBaseQuery_ids
        whereSlot_def evalWhere_def nameFilterAccepts_def del: set_map)

lemma listed_filtered_no_name:
  assumes "categoryIds \<noteq> []" and "\<not> truthyString nm"
  shows "set (listedProductIds (getProductsFiltered db categoryIds nm)) =
     {p_id p | p c. (p, c) \<in> set (productJoin db) \<and> p_id p \<in> set (matchingProductIds db categoryIds)}"
  using assms
  by (simp add: getProductsFiltered_eq listed_jsonResponse productMap_runBaseQuery_ids
        whereSlot_def evalWhere_def del: set_map)

lemma listed_filtered_with_name:
  assumes "categoryIds \<noteq> []" and "truthyString nm"
  shows "set (listedProductIds (getProductsFiltered db categoryIds nm)) =
     (if matchingProductIds db categoryIds = [] then {}
      else {p_id p | p c. (p, c) \<in> set (productJoin db) \<and> nameFilterAccepts nm (p_name p)})"
  using assms
  by (simp add: getProductsFiltered_eq listed_jsonResponse productMap_runBaseQuery_ids
        whereSlot_def evalWhere_def nameFilterAccepts_def del: set_map)

lemma foreignKey_join:
  assumes "foreignKeysHold db" and "associated db k c"
  shows "\<exists>p c'. (p, c') \<in> set (productJoin db) \<and> p_id p = k"
proof -
  have "\<lparr>pc_productId = k, pc_categoryId = c\<rparr> \<in> set (productCategories db)"
    using assms(2) by (simp add: associated_def)
  then have "k \<in> set (map p_id (products db))" and "c \<in> set (map c_id (categories db))"
    using assms(1) by (auto simp: foreignKeysHold_def list_all_iff)
  then obtain p c' where "p \<in> set (products db)" "p_id p = k" "c' \<in> set (categories db)" "c_id c' = c"
    by auto
  then show ?thesis
    using assms(2) by (auto simp: productJoin_iff)
qed

lemma listed_category_filter:
  assumes fk: "foreignKeysHold db" and ne: "categoryIds \<noteq> []" and nm: "\<not> truthyString nm"
  shows "k \<in> set (listedProductIds (getProductsFiltered db categoryIds nm)) \<longleftrightarrow>
         (\<forall>c \<in> set categoryIds. associated db k c)"
proof -
  obtain c0 where c0: "c0 \<in> set categoryIds"
    using ne by (cases categoryIds) auto
  have "k \<in> set (listedProductIds (getProductsFiltered db categoryIds nm)) \<longleftrightarrow>
        (\<exists>p c. (p, c) \<in> set (productJoin db) \<and> p_id p = k) \<and>
        k \<in> set (matchingProductIds db categoryIds)"
    unfolding listed_filtered_no_name [OF ne nm] by auto
  also have "\<dots> \<longleftrightarrow> (\<forall>c \<in> set categoryIds. associated db k c)"
    using foreignKey_join [OF fk, of k c0] c0
    by (auto simp: matchingProductIds_iff [OF ne])
  finally show ?thesis .
qed


lemma getProductsFiltered_cong:
  assumes "set categoryIds' = set categoryIds"
  shows "getProductsFiltered db categoryIds' nm = getProductsFiltered db categoryIds nm"
proof -
  have "(categoryIds' = []) = (categoryIds = [])"
    using assms by (metis set_empty)
  then show ?thesis
    by (simp add: getProductsFiltered_eq whereSlot_def matchingProductIds_cong [OF assms])
qed

section \<open>Facts about the name filter\<close>

lemma likeMatch_percent:
  "likeMatch (CHR ''%'' # p) t \<longleftrightarrow> (\<exists>u v. t = u @ v \<and> likeMatch p v)"
proof (induction t)
  case Nil
  show ?case by simp
next
  case (Cons x t)
  have "likeMatch (CHR ''%'' # p) (x # t) \<longleftrightarrow>
        likeMatch p (x # t) \<or> likeMatch (CHR ''%'' # p) t"
    by simp
  also have "\<dots> \<longleftrightarrow> likeMatch p (x # t) \<or> (\<exists>u v. t = u @ v \<and> likeMatch p v)"
    by (simp only: Cons.IH)
  also have "\<dots> \<longleftrightarrow> (\<exists>u v. x # t = u @ v \<and> likeMatch p v)"
    by (auto simp: Cons_eq_append_conv)
  finally show ?case .
qed

lemma likeMatch_literal:
  assumes "wildcardFree s"
  shows "likeMatch (s @ p) t \<longleftrightarrow> (\<exists>v. t = s @ v \<and> likeMatch p v)"
  using assms
proof (induction s arbitrary: t)
  case Nil
  show ?case by simp
next
  case (Cons c s)
  then have c: "c \<noteq> CHR ''%''" "c \<noteq> CHR ''_''" "c \<noteq> CHR 0x5C" and s: "wildcardFree s"
    by (simp_all add: wildcardFree_def)
  show ?case
  proof (cases t)
    case Nil
    then show ?thesis using c by simp
  next
    case (Cons x t')
    have "likeMatch ((c # s) @ p) (x # t') \<longleftrightarrow> x = c \<and> likeMatch (s @ p) t'"
      using c by simp
    also have "\<dots> \<longleftrightarrow> x = c \<and> (\<exists>v. t' = s @ v \<and> likeMatch p v)"
      by (simp only: Cons.IH [OF s])
    also have "\<dots> \<longleftrightarrow> (\<exists>v. x # t' = (c # s) @ v \<and> likeMatch p v)"
      by auto
    finally show ?thesis using Cons by simp
  qed
qed

lemma likeMatch_contains:
  assumes "wildcardFree s"
  shows "likeMatch (''%'' @ s @ ''%'') t \<longleftrightarrow> (\<exists>u v. t = u @ s @ v)"
proof -
  have any: "likeMatch ''%'' w" for w
    using likeMatch_percent [of "[]" w] by simp
  have "likeMatch (''%'' @ s @ ''%'') t \<longleftrightarrow> (\<exists>u v. t = u @ v \<and> likeMatch (s @ ''%'') v)"
    using likeMatch_percent [of "s @ ''%''" t] by simp
  also have "\<dots> \<longleftrightarrow> (\<exists>u v. t = u @ v \<and> (\<exists>w. v = s @ w \<and> likeMatch ''%'' w))"
    by (simp only: likeMatch_literal [OF assms])
  also have "\<dots> \<longleftrightarrow> (\<exists>u w. t = u @ s @ w)"
    using any by auto
  finally show ?thesis .
qed

lemma wildcardFree_toLowerCase: "wildcardFree s \<Longrightarrow> wildcardFree (toLowerCase s)"
proof -
  have "toLowerCaseChar x = c \<longleftrightarrow> x = c" if "c \<in> set [CHR ''%'', CHR ''_'', CHR 0x5C]" for x c
    using that by (intro toLowerCaseChar_eq_iff)
      (auto simp: upperCaseLetters_def lowerCaseLetters_def)
  then show "wildcardFree s \<Longrightarrow> wildcardFree (toLowerCase s)"
    unfolding wildcardFree_def toLowerCase_def list_all_iff
    by (metis (no_types, lifting) imageE list.set_map)
qed

lemma ilike_contains:
  assumes "wildcardFree s"
  shows "ilike name (''%'' @ s @ ''%'') \<longleftrightarrow> (\<exists>u v. toLowerCase name = u @ toLowerCase s @ v)"
proof -
  have "toLowerCase ''%'' = ''%''"
    by (simp add: toLowerCase_def toLowerCaseChar_def upperCaseLetters_def lowerCaseLetters_def)
  then have "toLowerCase (''%'' @ s @ ''%'') = ''%'' @ toLowerCase s @ ''%''"
    by (simp only: toLowerCase_append)
  then show ?thesis
    unfolding ilike_def
    using likeMatch_contains [OF wildcardFree_toLowerCase [OF assms], of "toLowerCase name"]
    by simp
qed

lemma getProducts_filter_absent:
  assumes "categoryFilterAbsent (q_categoryIds req)"
  shows "getProducts db req = getProductsFiltered db [] (q_name req)"
proof (cases "q_categoryIds req")
  case None
  then show ?thesis by (simp add: getProducts_def parseCategoryIds_def)
next
  case (Some s)
  then have "s = [] \<or> JSON_parse s = Inr (IdArray [])"
    using assms by (simp add: categoryFilterAbsent_def)
  then show ?thesis
    using Some by (auto simp: getProducts_def parseCategoryIds_def)
qed

lemma listed_unfiltered_product:
  assumes pk: "primaryKeysHold db" and fk: "foreignKeysHold db" and P: "P \<in> set (products db)"
  shows "p_id P \<in> set (listedProductIds (getProductsFiltered db [] nm)) \<longleftrightarrow>
         (\<exists>c. associated db (p_id P) c) \<and> nameFilterAccepts nm (p_name P)"
proof
  assume "p_id P \<in> set (listedProductIds (getProductsFiltered db [] nm))"
  then obtain p c where pc: "(p, c) \<in> set (productJoin db)" "p_id p = p_id P"
      "nameFilterAccepts nm (p_name p)"
    unfolding listed_unfiltered by auto
  then have "p \<in> set (products db)" and a: "associated db (p_id p) (c_id c)"
    by (simp_all add: productJoin_iff)
  moreover have "inj_on p_id (set (products db))"
    using pk by (simp add: primaryKeysHold_def distinct_map)
  ultimately have "p = P"
    using P pc(2) by (auto dest: inj_onD)
  then show "(\<exists>c. associated db (p_id P) c) \<and> nameFilterAccepts nm (p_name P)"
    using a pc(3) by auto
next
  assume r: "(\<exists>c. associated db (p_id P) c) \<and> nameFilterAccepts nm (p_name P)"
  then obtain c where c: "associated db (p_id P) c" by blast
  then have "c \<in> set (map c_id (categories db))"
    using fk by (auto simp: associated_def foreignKeysHold_def list_all_iff)
  then obtain cat where "cat \<in> set (categories db)" "c_id cat = c" by auto
  then have "(P, cat) \<in> set (productJoin db)"
    using P c by (simp add: productJoin_iff)
  then show "p_id P \<in> set (listedProductIds (getProductsFiltered db [] nm))"
    unfolding listed_unfiltered using r by blast
qed

section \<open>Facts about the statements\<close>

lemma filter_unique:
  assumes "distinct (map f xs)" and "x \<in> set xs"
  shows "filter (\<lambda>y. f y = f x) xs = [x]"
  using assms
proof (induction xs)
  case Nil
  then show ?case by simp
next
  case (Cons a xs)
  show ?case
  proof (cases "a = x")
    case True
    have "filter (\<lambda>y. f y = f x) xs = []"
      using Cons.prems(1) True by (auto simp: filter_empty_conv image_iff)
    then show ?thesis using True by simp
  next
    case False
    then have "x \<in> set xs" using Cons.prems(2) by simp
    moreover have "f a \<noteq> f x"
      using Cons.prems(1) \<open>x \<in> set xs\<close> by (auto simp: image_iff)
    ultimately show ?thesis
      using Cons by simp
  qed
qed

lemma filter_key_unique:
  assumes "distinct (map f xs)" and "k \<in> set (map f xs)"
  shows "\<exists>x. filter (\<lambda>y. f y = k) xs = [x] \<and> f x = k"
proof -
  obtain x where "x \<in> set xs" "f x = k"
    using assms(2) by auto
  then show ?thesis
    using filter_unique [OF assms(1), of x] by auto
qed

lemma concat_map_if:
  "concat (map (\<lambda>x. if P x then g x else []) xs) = concat (map g (filter P xs))"
  by (induction xs) simp_all

lemma productWithCategories_eq:
  "productWithCategories pid db =
     concat (map (\<lambda>pc.
        concat (map (\<lambda>p. map (\<lambda>c. (p, c)) (filter (\<lambda>c. c_id c = pc_categoryId pc) (categories db)))
          (filter (\<lambda>p. p_id p = pc_productId pc) (products db))))
       (filter (\<lambda>pc. pc_productId pc = pid) (productCategories db)))"
  unfolding productWithCategories_def by (simp only: concat_map_if concat_map_singleton)

lemma productWithCategories_ids:
  assumes "primaryKeysHold db" and "foreignKeysHold db"
  shows "map (\<lambda>row. cv_id (toCategoryView (snd row))) (productWithCategories pid db) =
         map pc_categoryId (filter (\<lambda>pc. pc_productId pc = pid) (productCategories db))"
proof -
  have one: "map (\<lambda>row. cv_id (toCategoryView (snd row)))
        (concat (map (\<lambda>p. map (\<lambda>c. (p, c)) (filter (\<lambda>c. c_id c = pc_categoryId pc) (categories db)))
          (filter (\<lambda>p. p_id p = pc_productId pc) (products db)))) = [pc_categoryId pc]"
    if "pc \<in> set (productCategories db)" for pc
  proof -
    have "pc_productId pc \<in> set (map p_id (products db))"
      and "pc_categoryId pc \<in> set (map c_id (categories db))"
      using assms(2) that by (auto simp: foreignKeysHold_def list_all_iff)
    moreover have "distinct (map p_id (products db))" "distinct (map c_id (categories db))"
      using assms(1) by (simp_all add: primaryKeysHold_def)
    ultimately obtain p c where
      "filter (\<lambda>p. p_id p = pc_productId pc) (products db) = [p]"
      "filter (\<lambda>c. c_id c = pc_categoryId pc) (categories db) = [c]" "c_id c = pc_categoryId pc"
      using filter_key_unique [of p_id "products db" "pc_productId pc"]
        filter_key_unique [of c_id "categories db" "pc_categoryId pc"]
      by blast
    then show ?thesis by (simp add: toCategoryView_def)
  qed
  have "map (\<lambda>row. cv_id (toCategoryView (snd row)))
          (concat (map (\<lambda>pc.
             concat (map (\<lambda>p. map (\<lambda>c. (p, c)) (filter (\<lambda>c. c_id c = pc_categoryId pc) (categories db)))
               (filter (\<lambda>p. p_id p = pc_productId pc) (products db)))) rows)) =
        map pc_categoryId rows"
    if "set rows \<subseteq> set (productCategories db)" for rows
    using that
  proof (induction rows)
    case Nil
    show ?case by simp
  next
    case (Cons r rows)
    then show ?case using one [of r] by simp
  qed
  then show ?thesis
    unfolding productWithCategories_eq by simp
qed

subsection \<open>The inserts keep the constraints\<close>

lemma insertProduct_Inr:
  assumes "insertProduct row db = Inr db1"
  shows "db1 = db\<lparr>products := products db @ [row]\<rparr>"
    and "p_id row \<notin> set (map p_id (products db))"
    and "p_name row \<notin> set (map p_name (products db))"
  using assms by (auto simp: insertProduct_def split: if_splits)

lemma insertProductCategories_Inr:
  assumes "insertProductCategories rows db = Inr db1"
  shows "db1 = db\<lparr>productCategories := productCategories db @ rows\<rparr>"
    and "rows \<noteq> []" and "distinct rows"
    and "list_all (\<lambda>r. pc_productId r \<in> set (map p_id (products db)) \<and>
                       pc_categoryId r \<in> set (map c_id (categories db)) \<and>
                       r \<notin> set (productCategories db)) rows"
  using assms by (auto simp: insertProductCategories_def split: if_splits)

lemma insertProduct_constraints:
  assumes "constraintsHold db" and "insertProduct row db = Inr db1"
  shows "constraintsHold db1"
proof -
  note i = insertProduct_Inr [OF assms(2)]
  show ?thesis
    using assms(1) i(2,3) unfolding i(1)
    by (auto simp: constraintsHold_def primaryKeysHold_def uniqueNamesHold_def
        foreignKeysHold_def list_all_iff)
qed

lemma insertProductCategories_constraints:
  assumes "constraintsHold db" and "insertProductCategories rows db = Inr db1"
  shows "constraintsHold db1"
proof -
  note i = insertProductCategories_Inr [OF assms(2)]
  show ?thesis
    using assms(1) i(3,4) unfolding i(1)
    by (auto simp: constraintsHold_def primaryKeysHold_def uniqueNamesHold_def
        foreignKeysHold_def list_all_iff)
qed

lemma nextvalProducts_constraints:
  "constraintsHold (snd (nextvalProducts db)) = constraintsHold db"
  by (simp add: nextvalProducts_def constraintsHold_def primaryKeysHold_def uniqueNamesHold_def
      foreignKeysHold_def)

subsection \<open>addProduct\<close>

lemma addProduct_success:
  assumes "addProduct now db req = (Response r, db')" and "r_code r = 200"
  defines "row \<equiv> \<lparr>p_id = products_id_seq db + 1, p_name = a_name req, p_price = a_price req,
                    p_createdAt = now, p_updatedAt = now\<rparr>"
  shows "products db' = products db @ [row]"
    and "categories db' = categories db"
    and "productCategories db' =
           productCategories db @
           map (\<lambda>c. \<lparr>pc_productId = p_id row, pc_categoryId = c\<rparr>) (a_categoryIds req)"
    and "list_all (\<lambda>c. c \<in> set (map c_id (categories db))) (a_categoryIds req)"
    and "distinct (a_categoryIds req)"
    and "p_id row \<notin> set (map p_id (products db))"
    and "r = \<lparr>r_code = 200, r_message = ''Product added successfully'', r_status = ''success'',
              r_data = ProductDetail (Some row)
                         (map (\<lambda>x. toCategoryView (snd x)) (productWithCategories (p_id row) db')),
              r_cookies = setAuthCookies (p_id row)\<rparr>"
    and "constraintsHold db \<Longrightarrow> constraintsHold db'"
proof -
  define db0 where "db0 = db\<lparr>products_id_seq := products_id_seq db + 1\<rparr>"
  have b1: "filter (\<lambda>p. p_name p = a_name req) (products db) = []"
    using assms(1,2) by (auto simp: addProduct_def jsonResponse_def split: if_splits)
  have b2: "filter (\<lambda>c. c_id c \<in> set (a_categoryIds req)) (categories db) \<noteq> []"
    using assms(1,2) b1 by (auto simp: addProduct_def jsonResponse_def split: if_splits)
  have tx: "addTransaction row (a_categoryIds req) db0 = Inr db'"
    and r: "r = \<lparr>r_code = 200, r_message = ''Product added successfully'', r_status = ''success'',
              r_data = ProductDetail (Some row)
                         (map (\<lambda>x. toCategoryView (snd x)) (productWithCategories (p_id row) db')),
              r_cookies = setAuthCookies (p_id row)\<rparr>"
    using assms(1) b1 b2
    by (auto simp: addProduct_def nextvalProducts_def row_def db0_def Let_def split: sum.splits)
  from tx obtain db1 where
    ip: "insertProduct row db0 = Inr db1" and
    ic: "insertProductCategories
           (map (\<lambda>c. \<lparr>pc_productId = p_id row, pc_categoryId = c\<rparr>) (a_categoryIds req)) db1 = Inr db'"
    by (auto simp: addTransaction_def split: sum.splits)
  note i1 = insertProduct_Inr [OF ip]
  note i2 = insertProductCategories_Inr [OF ic]
  show "products db' = products db @ [row]"
    unfolding i2(1) i1(1) by (simp add: db0_def)
  show "categories db' = categories db"
    unfolding i2(1) i1(1) by (simp add: db0_def)
  show "productCategories db' =
           productCategories db @
           map (\<lambda>c. \<lparr>pc_productId = p_id row, pc_categoryId = c\<rparr>) (a_categoryIds req)"
    unfolding i2(1) i1(1) by (simp add: db0_def)
  show "list_all (\<lambda>c. c \<in> set (map c_id (categories db))) (a_categoryIds req)"
    using i2(4) unfolding i1(1) by (simp add: db0_def list_all_iff)
  show "distinct (a_categoryIds req)"
    using i2(3) by (simp add: distinct_map)
  show "p_id row \<notin> set (map p_id (products db))"
    using i1(2) by (simp add: db0_def)
  show "r = \<lparr>r_code = 200, r_message = ''Product added successfully'', r_status = ''success'',
              r_data = ProductDetail (Some row)
                         (map (\<lambda>x. toCategoryView (snd x)) (productWithCategories (p_id row) db')),
              r_cookies = setAuthCookies (p_id row)\<rparr>"
    by (rule r)
  show "constraintsHold db'" if "constraintsHold db"
  proof -
    have "constraintsHold db0"
      using that nextvalProducts_constraints [of db] by (simp add: nextvalProducts_def db0_def)
    then show ?thesis
      using insertProduct_constraints [OF _ ip] insertProductCategories_constraints [OF _ ic]
      by blast
  qed
qed

lemma addProduct_category_not_found:
  assumes "fst (addProduct now db req) = jsonResponse 400 ''Category not found'' ''error'' NoData"
  shows "\<not> list_ex (\<lambda>c. c \<in> set (map c_id (categories db))) (a_categoryIds req)"
proof -
  have "filter (\<lambda>c. c_id c \<in> set (a_categoryIds req)) (categories db) = []"
    using assms
    by (auto simp: addProduct_def jsonResponse_def nextvalProducts_def Let_def
        split: if_splits sum.splits)
  then show ?thesis
    by (auto simp: filter_empty_conv list_ex_iff)
qed

lemma addProduct_category_check_passed:
  assumes "a_name req \<notin> set (map p_name (products db))"
    and "list_ex (\<lambda>c. c \<in> set (map c_id (categories db))) (a_categoryIds req)"
    and "fst (addProduct now db req) = Response r"
  shows "r_code r = 200"
proof -
  have b1: "filter (\<lambda>p. p_name p = a_name req) (products db) = []"
    using assms(1) by (auto simp: filter_empty_conv image_iff)
  have b2: "filter (\<lambda>c. c_id c \<in> set (a_categoryIds req)) (categories db) \<noteq> []"
    using assms(2) by (auto simp: filter_empty_conv list_ex_iff)
  show ?thesis
    using assms(3) b1 b2
    by (auto simp: addProduct_def nextvalProducts_def Let_def split: sum.splits)
qed

subsection \<open>editProduct\<close>


lemma map_p_id_update:
  "map p_id (map (\<lambda>p. if p_id p = pid then setProductFields name price now p else p) ps) =
   map p_id ps"
  by (induction ps) (simp_all add: setProductFields_def)



subsection \<open>The worked example of addProduct\<close>

lemma addProduct_example:
  "addProduct 500 exampleDb \<lparr>a_name = ''pear'', a_price = 2, a_categoryIds = [2, 1]\<rparr> =
   (Response
      \<lparr>r_code = 200, r_message = ''Product added successfully'', r_status = ''success'',
         r_data = ProductDetail
           (Some \<lparr>p_id = 23, p_name = ''pear'', p_price = 2, p_createdAt = 500, p_updatedAt = 500\<rparr>)
           [\<lparr>cv_id = 2, cv_name = Some ''books''\<rparr>, \<lparr>cv_id = 1, cv_name = Some ''electronics''\<rparr>],
         r_cookies = setAuthCookies 23\<rparr>,
    exampleDbAfterAdd)"
proof -
  have f1: "filter (\<lambda>p. p_name p = ''pear'') (products exampleDb) = []"
    by (simp add: exampleDb_def)
  have f2: "filter (\<lambda>c. c_id c \<in> set [2, 1]) (categories exampleDb) \<noteq> []"
    by (simp add: exampleDb_def)
  have f3: "products_id_seq exampleDb = 22"
    by (simp add: exampleDb_def)
  have tx: "addTransaction
      \<lparr>p_id = 23, p_name = ''pear'', p_price = 2, p_createdAt = 500, p_updatedAt = 500\<rparr> [2, 1]
      (exampleDb\<lparr>products_id_seq := 23\<rparr>) = Inr exampleDbAfterAdd"
    by code_simp
  have cats: "map (\<lambda>row. toCategoryView (snd row)) (productWithCategories 23 exampleDbAfterAdd) =
      [\<lparr>cv_id = 2, cv_name = Some ''books''\<rparr>, \<lparr>cv_id = 1, cv_name = Some ''electronics''\<rparr>]"
    by code_simp
  show ?thesis
    using f2 by (simp add: addProduct_def nextvalProducts_def f1 f3 tx cats)
qed

section \<open>The handlers leave no product without a category\<close>

text \<open>
  A product enters the store through \<open>addProduct\<close>, which inserts at least one
  association row with it, and \<open>editProduct\<close> replaces the rows of a product by at
  least one row. So in the states the handlers produce every product has an association
  row, and the inner join of \<open>getProducts\<close> loses no product.
\<close>

lemma categorised_iff:
  "everyProductCategorised db \<longleftrightarrow>
     (\<forall>p \<in> set (products db). \<exists>r \<in> set (productCategories db). pc_productId r = p_id p)"
  unfolding everyProductCategorised_def list_all_iff
  by (simp add: image_iff Bex_def Ball_def) metis

lemma addProduct_keeps_categorised:
  assumes "everyProductCategorised db"
  shows "everyProductCategorised (snd (addProduct now db req))"
proof -
  define row where "row = \<lparr>p_id = products_id_seq db + 1, p_name = a_name req,
      p_price = a_price req, p_createdAt = now, p_updatedAt = now\<rparr>"
  define db0 where "db0 = db\<lparr>products_id_seq := products_id_seq db + 1\<rparr>"
  define rows where
    "rows = map (\<lambda>c. \<lparr>pc_productId = p_id row, pc_categoryId = c\<rparr>) (a_categoryIds req)"
  have c0: "everyProductCategorised db0"
    using assms by (simp add: everyProductCategorised_def db0_def)
  have "snd (addProduct now db req) = db \<or>
        snd (addProduct now db req) =
          (case addTransaction row (a_categoryIds req) db0 of Inl e \<Rightarrow> db0 | Inr db' \<Rightarrow> db')"
    by (simp add: addProduct_def nextvalProducts_def row_def db0_def Let_def split: sum.split)
  then consider "snd (addProduct now db req) = db" | "snd (addProduct now db req) = db0"
    | db' where "addTransaction row (a_categoryIds req) db0 = Inr db'"
        "snd (addProduct now db req) = db'"
    by (cases "addTransaction row (a_categoryIds req) db0") auto
  then show ?thesis
  proof cases
    case 1
    then show ?thesis using assms by simp
  next
    case 2
    then show ?thesis using c0 by simp
  next
    case 3
    from 3(1) obtain db1 where
      ip: "insertProduct row db0 = Inr db1" and
      ic: "insertProductCategories rows db1 = Inr db'"
      by (auto simp: addTransaction_def rows_def split: sum.splits)
    note i1 = insertProduct_Inr [OF ip]
    note i2 = insertProductCategories_Inr [OF ic]
    have p: "products db' = products db @ [row]"
      and a: "productCategories db' = productCategories db @ rows"
      unfolding i2(1) i1(1) by (simp_all add: db0_def)
    have "hd rows \<in> set rows"
      using i2(2) by (rule hd_in_set)
    moreover have "\<forall>r \<in> set rows. pc_productId r = p_id row"
      by (simp add: rows_def)
    ultimately obtain r where "r \<in> set rows" "pc_productId r = p_id row"
      by blast
    then show ?thesis
      using assms unfolding 3(2) categorised_iff p a by auto
  qed
qed

lemma editProduct_keeps_categorised:
  assumes "everyProductCategorised db"
  shows "everyProductCategorised (snd (editProduct now db req))"
proof -
  define rows where "rows = map (\<lambda>p. if p_id p = e_id req
      then setProductFields (e_name req) (e_price req) now p else p) (products db)"
  define db1 where "db1 = db\<lparr>products := rows\<rparr>"
  define new where "new = map (\<lambda>c. \<lparr>pc_productId = e_id req, pc_categoryId = c\<rparr>)
      (map c_id (filter (\<lambda>c. c_id c \<in> set (suppliedCategoryIds req)) (categories db1)))"
  have ids: "map p_id rows = map p_id (products db)"
    unfolding rows_def by (rule map_p_id_update)
  have sub: "\<exists>q \<in> set (products db). p_id q = p_id p" if "p \<in> set rows" for p
  proof -
    have "p_id p \<in> set (map p_id rows)" using that by simp
    then show ?thesis unfolding ids by auto
  qed
  have c1: "everyProductCategorised db1"
    using assms sub unfolding categorised_iff db1_def by fastforce
  have u: "updateProduct (e_id req) (e_name req) (e_price req) now db = Inl DatabaseError \<or>
      updateProduct (e_id req) (e_name req) (e_price req) now db =
        Inr (filter (\<lambda>p. p_id p = e_id req) rows, db1)"
    by (simp add: updateProduct_def Let_def rows_def db1_def)
  define returned where "returned =
      (case filter (\<lambda>p. p_id p = e_id req) rows of [] \<Rightarrow> None | r # _ \<Rightarrow> Some r)"
  have t: "editTransaction now req db = Inl DatabaseError \<or>
      editTransaction now req db = Inr (returned, db1) \<or>
      editTransaction now req db =
         (case insertProductCategories new (deleteProductCategories (e_id req) db1) of
            Inl e \<Rightarrow> Inl e | Inr db3 \<Rightarrow> Inr (returned, db3))"
    using u
  proof
    assume "updateProduct (e_id req) (e_name req) (e_price req) now db = Inl DatabaseError"
    then show ?thesis by (simp add: editTransaction_def)
  next
    assume "updateProduct (e_id req) (e_name req) (e_price req) now db =
        Inr (filter (\<lambda>p. p_id p = e_id req) rows, db1)"
    then have "editTransaction now req db =
        (if suppliedCategoryIds req \<noteq> []
         then (case insertProductCategories new (deleteProductCategories (e_id req) db1) of
                 Inl e \<Rightarrow> Inl e | Inr db3 \<Rightarrow> Inr (returned, db3))
         else Inr (returned, db1))"
      unfolding returned_def new_def by (simp add: editTransaction_def Let_def)
    then show ?thesis
      by (cases "suppliedCategoryIds req = []") simp_all
  qed
  have "snd (editProduct now db req) = db \<or>
      snd (editProduct now db req) =
        (case editTransaction now req db of Inl e \<Rightarrow> db | Inr r \<Rightarrow> snd r)"
    by (simp add: editProduct_def split: sum.split prod.split)
  then consider "snd (editProduct now db req) = db" | "snd (editProduct now db req) = db1"
    | db3 where "insertProductCategories new (deleteProductCategories (e_id req) db1) = Inr db3"
        "snd (editProduct now db req) = db3"
    using t
    by (cases "insertProductCategories new (deleteProductCategories (e_id req) db1)") auto
  then show ?thesis
  proof cases
    case 1
    then show ?thesis using assms by simp
  next
    case 2
    then show ?thesis using c1 by simp
  next
    case 3
    note i = insertProductCategories_Inr [OF 3(1)]
    have p: "products db3 = rows"
      and a: "productCategories db3 =
          filter (\<lambda>r. pc_productId r \<noteq> e_id req) (productCategories db) @ new"
      unfolding i(1) by (simp_all add: deleteProductCategories_def db1_def)
    have "hd new \<in> set new"
      using i(2) by (rule hd_in_set)
    moreover have "\<forall>r \<in> set new. pc_productId r = e_id req"
      by (simp add: new_def)
    ultimately obtain r where r: "r \<in> set new" "pc_productId r = e_id req"
      by blast
    have "\<exists>x \<in> set (productCategories db3). pc_productId x = p_id p" if p: "p \<in> set rows" for p
    proof (cases "p_id p = e_id req")
      case True
      then show ?thesis using r unfolding a by auto
    next
      case False
      obtain q where "q \<in> set (products db)" "p_id q = p_id p"
        using sub [OF p] by blast
      then obtain x where "x \<in> set (productCategories db)" "pc_productId x = p_id p"
        using assms unfolding categorised_iff by fastforce
      then show ?thesis using False unfolding a by auto
    qed
    then show ?thesis
      unfolding 3(2) categorised_iff p by blast
  qed
qed

lemma deleteProduct_keeps_categorised:
  assumes "everyProductCategorised db"
  shows "everyProductCategorised (snd (deleteProduct db pid))"
proof -
  have "\<exists>r \<in> set (filter (\<lambda>r. pc_productId r \<noteq> pid) (productCategories db)).
          pc_productId r = p_id p"
    if "p \<in> set (filter (\<lambda>p. p_id p \<noteq> pid) (products db))" for p
  proof -
    from that have p: "p \<in> set (products db)" "p_id p \<noteq> pid" by simp_all
    then obtain r where "r \<in> set (productCategories db)" "pc_productId r = p_id p"
      using assms unfolding categorised_iff by blast
    then show ?thesis using p(2) by auto
  qed
  then have "everyProductCategorised (snd (deleteProductRow pid db))"
    unfolding categorised_iff by (simp add: deleteProductRow_def)
  then show ?thesis
    using assms by (cases "deleteProductRow pid db") (simp add: deleteProduct_def)
qed

lemma addCategory_keeps_categorised:
  assumes "everyProductCategorised db"
  shows "everyProductCategorised (snd (addCategory now db name))"
proof -
  have "products (snd (addCategory now db name)) = products db \<and>
        productCategories (snd (addCategory now db name)) = productCategories db"
    by (auto simp: addCategory_def nextvalCategories_def insertCategory_def Let_def
        split: if_splits option.splits sum.splits)
  then show ?thesis
    using assms by (simp add: everyProductCategorised_def)
qed

lemma getProducts_lists_every_categorised_product:
  assumes "primaryKeysHold db" and "foreignKeysHold db" and "everyProductCategorised db"
    and "categoryFilterAbsent (q_categoryIds req)" and "\<not> truthyString (q_name req)"
    and "P \<in> set (products db)"
  shows "p_id P \<in> set (listedProductIds (getProducts db req))"
proof -
  obtain r where "r \<in> set (productCategories db)" "pc_productId r = p_id P"
    using assms(3,6) unfolding categorised_iff by blast
  then have "\<exists>c. associated db (p_id P) c"
    by (auto simp: associated_iff)
  moreover have "nameFilterAccepts (q_name req) (p_name P)"
    using assms(5) by (simp add: nameFilterAccepts_def)
  ultimately show ?thesis
    using assms(1,2,4,6) by (simp only: getProducts_filter_absent listed_unfiltered_product)
qed

section \<open>The category name formatter\<close>

text \<open>
  C7 at failing inputs. The documentation of \<open>reformatCategoryNameInput\<close> promises a
  trimmed result. The name \<open>Abc\<close> followed by a space is one token: lower-cased and
  trimmed it is \<open>abc\<close>, and the function returns \<open>abc_\<close>, because the trailing space has
  become an underscore before \<open>trim\<close> runs. A tab followed by \<open>a\<close> holds no space
  character, takes the branch that does not trim and comes back with its tab, while a
  tab followed by \<open>a b\<close> takes the other branch and is trimmed. Two spaces between
  tokens give two underscores.
\<close>

theorem reformatCategoryNameInput_at_failing_inputs:
  "reformatCategoryNameInput (Some ''Abc '') = Some ''abc_'' \<and>
   trim (toLowerCase ''Abc '') = ''abc'' \<and>
   reformatCategoryNameInput (Some [CHR 0x09, CHR ''a'']) = Some [CHR 0x09, CHR ''a''] \<and>
   trim (toLowerCase [CHR 0x09, CHR ''a'']) = ''a'' \<and>
   reformatCategoryNameInput (Some [CHR 0x09, CHR ''a'', CHR '' '', CHR ''b'']) = Some ''a_b'' \<and>
   reformatCategoryNameInput (Some ''a  b'') = Some ''a__b''"
  by code_simp

text \<open>
  C8: the three equations of the formatter round trip.
\<close>

theorem formatter_round_trip:
  "reformatCategoryNameResponse (reformatCategoryNameInput (Some ''Category Name'')) =
     Some ''category name'' \<and>
   reformatCategoryNameInput (Some ''Category'') = Some ''category'' \<and>
   reformatCategoryNameInput None = None"
  by code_simp

section \<open>getProducts\<close>

text \<open>
  C9: a \<open>categoryIds\<close> parameter that is not JSON, here the text \<open>abc\<close>, makes
  \<open>getProducts\<close> throw the \<open>SyntaxError\<close> of \<open>JSON.parse\<close>, whatever the state and the
  name filter: no response is sent.
\<close>

theorem getProducts_invalid_json_throws:
  "getProducts db \<lparr>q_categoryIds = Some ''abc'', q_name = nm\<rparr> = Threw SyntaxError"
proof -
  have "JSON_parse ''abc'' = Inl SyntaxError" by code_simp
  then show ?thesis by (simp add: getProducts_def parseCategoryIds_def)
qed

theorem getProducts_invalid_json_throws_witness:
  "getProducts exampleDb \<lparr>q_categoryIds = Some ''abc'', q_name = None\<rparr> = Threw SyntaxError"
  by (rule getProducts_invalid_json_throws)

text \<open>
  C1, as the code has it. Let the \<open>categoryIds\<close> parameter parse to a non-empty array of
  ids and let the association table respect its foreign keys. When the request gives no
  name filter, a product id is listed in the response exactly when the product has an
  association row for every id of the array (AND semantics). With or without a name
  filter, an array with the same set of ids (duplicates, another order) gives the same
  response.
\<close>

theorem getProducts_category_filter:
  "(foreignKeysHold db \<and> JSON_parse s = Inr (IdArray categoryIds) \<and> categoryIds \<noteq> [] \<and>
    \<not> truthyString nm \<longrightarrow>
      (k \<in> set (listedProductIds (getProducts db \<lparr>q_categoryIds = Some s, q_name = nm\<rparr>)) \<longleftrightarrow>
         (\<forall>c \<in> set categoryIds. associated db k c))) \<and>
   (JSON_parse s = Inr (IdArray categoryIds) \<and> JSON_parse s' = Inr (IdArray categoryIds') \<and>
    set categoryIds' = set categoryIds \<longrightarrow>
      getProducts db \<lparr>q_categoryIds = Some s', q_name = anyName\<rparr> =
      getProducts db \<lparr>q_categoryIds = Some s, q_name = anyName\<rparr>)"
proof (intro conjI impI)
  assume "foreignKeysHold db \<and> JSON_parse s = Inr (IdArray categoryIds) \<and> categoryIds \<noteq> [] \<and>
    \<not> truthyString nm"
  then show "k \<in> set (listedProductIds (getProducts db \<lparr>q_categoryIds = Some s, q_name = nm\<rparr>)) \<longleftrightarrow>
        (\<forall>c \<in> set categoryIds. associated db k c)"
    by (simp add: getProducts_parsed listed_category_filter)
next
  assume a: "JSON_parse s = Inr (IdArray categoryIds) \<and> JSON_parse s' = Inr (IdArray categoryIds') \<and>
    set categoryIds' = set categoryIds"
  then have "getProducts db \<lparr>q_categoryIds = Some s', q_name = anyName\<rparr> =
             getProductsFiltered db categoryIds' anyName"
    by (simp add: getProducts_parsed)
  also have "\<dots> = getProductsFiltered db categoryIds anyName"
    using a by (intro getProductsFiltered_cong) simp
  also have "\<dots> = getProducts db \<lparr>q_categoryIds = Some s, q_name = anyName\<rparr>"
    using a by (simp add: getProducts_parsed)
  finally show "getProducts db \<lparr>q_categoryIds = Some s', q_name = anyName\<rparr> =
                getProducts db \<lparr>q_categoryIds = Some s, q_name = anyName\<rparr>" .
qed

theorem getProducts_category_filter_witness:
  "foreignKeysHold exampleDb \<and>
   JSON_parse ''[1,4]'' = Inr (IdArray [1, 4]) \<and>
   JSON_parse ''[4, 1, 1]'' = Inr (IdArray [4, 1, 1]) \<and>
   20 \<in> set (listedProductIds (getProducts exampleDb \<lparr>q_categoryIds = Some ''[1,4]'', q_name = None\<rparr>)) \<and>
   associated exampleDb 20 1 \<and> associated exampleDb 20 4 \<and>
   22 \<notin> set (listedProductIds (getProducts exampleDb \<lparr>q_categoryIds = Some ''[1,4]'', q_name = None\<rparr>)) \<and>
   \<not> associated exampleDb 22 4 \<and>
   getProducts exampleDb \<lparr>q_categoryIds = Some ''[4, 1, 1]'', q_name = Some ''ap''\<rparr> =
   getProducts exampleDb \<lparr>q_categoryIds = Some ''[1,4]'', q_name = Some ''ap''\<rparr>"
proof -
  have h1: "foreignKeysHold exampleDb" by code_simp
  have h2: "JSON_parse ''[1,4]'' = Inr (IdArray [1, 4])" by code_simp
  have h3: "[1, 4] \<noteq> ([] :: int list)" by simp
  have h4: "\<not> truthyString None" by (simp add: truthyString_def)
  have h5: "JSON_parse ''[4, 1, 1]'' = Inr (IdArray [4, 1, 1])" by code_simp
  have a: "associated exampleDb 20 1" "associated exampleDb 20 4" "\<not> associated exampleDb 22 4"
    by (simp_all add: associated_def exampleDb_def)
  have s: "set [4, 1, 1] = set [1, 4 :: int]" by auto
  note t20 = getProducts_category_filter
    [of exampleDb "''[1,4]''" "[1, 4]" None 20 "''[4, 1, 1]''" "[4, 1, 1]" "Some ''ap''"]
  note t22 = getProducts_category_filter
    [of exampleDb "''[1,4]''" "[1, 4]" None 22 "''[4, 1, 1]''" "[4, 1, 1]" "Some ''ap''"]
  have all20: "\<forall>c \<in> set [1, 4]. associated exampleDb 20 c"
    using a by simp
  have r20: "20 \<in> set (listedProductIds
      (getProducts exampleDb \<lparr>q_categoryIds = Some ''[1,4]'', q_name = None\<rparr>))"
    using t20 [THEN conjunct1] h1 h2 h3 h4 all20 by blast
  have not22: "\<not> (\<forall>c \<in> set [1, 4]. associated exampleDb 22 c)"
    using a by simp
  have r22: "22 \<notin> set (listedProductIds
      (getProducts exampleDb \<lparr>q_categoryIds = Some ''[1,4]'', q_name = None\<rparr>))"
    using t22 [THEN conjunct1] h1 h2 h3 h4 not22 by blast
  have dup: "getProducts exampleDb \<lparr>q_categoryIds = Some ''[4, 1, 1]'', q_name = Some ''ap''\<rparr> =
             getProducts exampleDb \<lparr>q_categoryIds = Some ''[1,4]'', q_name = Some ''ap''\<rparr>"
    using t20 [THEN conjunct2] h2 h5 s by blast
  show ?thesis
    by (intro conjI h1 h2 h5 r20 r22 a dup)
qed

text \<open>With a name filter the equivalence does not hold: product 20 has an association
  row for both categories 1 and 4, and the lookup for \<open>[1,4]\<close> with the name filter \<open>ap\<close>
  does not list it.\<close>

theorem getProducts_category_filter_counterexample:
  "associated exampleDb 20 1 \<and> associated exampleDb 20 4 \<and>
   JSON_parse ''[1,4]'' = Inr (IdArray [1, 4]) \<and>
   20 \<notin> set (listedProductIds
     (getProducts exampleDb \<lparr>q_categoryIds = Some ''[1,4]'', q_name = Some ''ap''\<rparr>))"
  by code_simp

text \<open>
  C2, as the code has it. Let the state satisfy the primary keys and the foreign keys of
  the schema, let the category filter be absent or empty, and let the search text, if
  one is given, hold none of \<open>%\<close>, \<open>_\<close> and backslash. Then \<open>getProducts\<close> lists a
  product of the store exactly when the product has at least one association row and
  its name holds the search text, case-insensitively. The base query is an inner join,
  so a product without any association row is in no listing; the handlers leave no
  product without one (\<open>addProduct_keeps_categorised\<close> and the lemmas after it), so
  such a row is one written past them.
\<close>

theorem getProducts_unfiltered_listing:
  assumes "primaryKeysHold db" and "foreignKeysHold db"
    and "categoryFilterAbsent (q_categoryIds req)"
    and "P \<in> set (products db)"
    and "q_name req = None \<or> (\<exists>s. q_name req = Some s \<and> wildcardFree s)"
  shows "p_id P \<in> set (listedProductIds (getProducts db req)) \<longleftrightarrow>
           (\<exists>c. associated db (p_id P) c) \<and>
           (\<forall>s. q_name req = Some s \<longrightarrow>
                (\<exists>u v. toLowerCase (p_name P) = u @ toLowerCase s @ v))"
proof -
  have l: "p_id P \<in> set (listedProductIds (getProducts db req)) \<longleftrightarrow>
        (\<exists>c. associated db (p_id P) c) \<and> nameFilterAccepts (q_name req) (p_name P)"
    using assms(1-4) by (simp only: getProducts_filter_absent listed_unfiltered_product)
  have n: "nameFilterAccepts (q_name req) (p_name P) \<longleftrightarrow>
        (\<forall>s. q_name req = Some s \<longrightarrow> (\<exists>u v. toLowerCase (p_name P) = u @ toLowerCase s @ v))"
  proof (cases "q_name req")
    case None
    then show ?thesis by (simp add: nameFilterAccepts_def truthyString_def)
  next
    case (Some s)
    then have w: "wildcardFree s" using assms(5) by auto
    show ?thesis
    proof (cases "s = []")
      case True
      have "\<exists>u v. toLowerCase (p_name P) = u @ toLowerCase [] @ v"
        by (rule exI [of _ "[]"], rule exI [of _ "toLowerCase (p_name P)"])
          (simp add: toLowerCase_def)
      then show ?thesis
        using Some True by (simp add: nameFilterAccepts_def truthyString_def)
    next
      case False
      then show ?thesis
        using Some ilike_contains [OF w, of "p_name P"]
        by (simp add: nameFilterAccepts_def truthyString_def)
    qed
  qed
  show ?thesis
    unfolding l n ..
qed

theorem getProducts_unfiltered_listing_witness:
  "primaryKeysHold exampleDb \<and> foreignKeysHold exampleDb \<and>
   categoryFilterAbsent None \<and>
   \<lparr>p_id = 21, p_name = ''Apple'', p_price = 5, p_createdAt = 200, p_updatedAt = 200\<rparr>
     \<in> set (products exampleDb) \<and>
   wildcardFree ''AP'' \<and>
   associated exampleDb 21 2 \<and>
   toLowerCase ''Apple'' = [] @ toLowerCase ''AP'' @ ''ple'' \<and>
   21 \<in> set (listedProductIds (getProducts exampleDb \<lparr>q_categoryIds = None, q_name = Some ''AP''\<rparr>))"
proof -
  let ?P = "\<lparr>p_id = 21, p_name = ''Apple'', p_price = 5, p_createdAt = 200, p_updatedAt = 200\<rparr>"
  let ?req = "\<lparr>q_categoryIds = None, q_name = Some ''AP''\<rparr>"
  have h1: "primaryKeysHold exampleDb" by code_simp
  have h2: "foreignKeysHold exampleDb" by code_simp
  have h3: "categoryFilterAbsent (q_categoryIds ?req)"
    by (simp add: categoryFilterAbsent_def)
  have h3': "categoryFilterAbsent None"
    by (simp add: categoryFilterAbsent_def)
  have h4: "?P \<in> set (products exampleDb)"
    by (simp add: exampleDb_def)
  have w: "wildcardFree ''AP''"
    by (simp add: wildcardFree_def)
  then have h5: "q_name ?req = None \<or> (\<exists>s. q_name ?req = Some s \<and> wildcardFree s)"
    by simp
  have a: "associated exampleDb 21 2"
    by (simp add: associated_def exampleDb_def)
  have l: "toLowerCase ''Apple'' = [] @ toLowerCase ''AP'' @ ''ple''"
    by code_simp
  note t = getProducts_unfiltered_listing [OF h1 h2 h3 h4 h5]
  have pn: "p_name ?P = ''Apple''" and pi: "p_id ?P = 21"
    by simp_all
  have "\<exists>u v. toLowerCase (p_name ?P) = u @ toLowerCase ''AP'' @ v"
    unfolding pn by (rule exI [of _ "[]"], rule exI [of _ "''ple''"]) (rule l)
  then have "\<forall>s. q_name ?req = Some s \<longrightarrow>
      (\<exists>u v. toLowerCase (p_name ?P) = u @ toLowerCase s @ v)"
    by simp
  moreover have "\<exists>c. associated exampleDb (p_id ?P) c"
    unfolding pi using a by (rule exI)
  ultimately have "p_id ?P \<in> set (listedProductIds (getProducts exampleDb ?req))"
    using t by blast
  then have r: "21 \<in> set (listedProductIds (getProducts exampleDb ?req))"
    by (simp only: pi)
  show ?thesis
    by (intro conjI h1 h2 h3' h4 w a l r)
qed

text \<open>A product without association rows, in a state that satisfies every constraint of
  the schema: the listing without filters omits it. And a search text with \<open>_\<close> is a
  pattern: \<open>a_p\<close> lists \<open>Apple\<close>.\<close>

theorem getProducts_unfiltered_listing_counterexample:
  "constraintsHold
     \<lparr>products = [\<lparr>p_id = 1, p_name = ''lamp'', p_price = 9, p_createdAt = 1, p_updatedAt = 1\<rparr>],
      categories = [\<lparr>c_id = 1, c_name = ''home'', c_createdAt = 1\<rparr>],
      productCategories = [], products_id_seq = 1, categories_id_seq = 1\<rparr> \<and>
   getProducts
     \<lparr>products = [\<lparr>p_id = 1, p_name = ''lamp'', p_price = 9, p_createdAt = 1, p_updatedAt = 1\<rparr>],
      categories = [\<lparr>c_id = 1, c_name = ''home'', c_createdAt = 1\<rparr>],
      productCategories = [], products_id_seq = 1, categories_id_seq = 1\<rparr>
     \<lparr>q_categoryIds = None, q_name = None\<rparr> =
   Response \<lparr>r_code = 200, r_message = ''Products fetched successfully'', r_status = ''success'',
             r_data = ProductList [], r_cookies = []\<rparr> \<and>
   listedProductIds (getProducts exampleDb \<lparr>q_categoryIds = None, q_name = Some ''a_p''\<rparr>) = [21]"
  by code_simp

text \<open>
  C3 at a failing input. The request gives the category filter \<open>[1]\<close> and the name
  filter \<open>ap\<close>. Product 21 (\<open>Apple\<close>) has no association row with category 1, and the
  response lists it: the second \<open>.where\<close> has replaced the category condition, so only
  the name filter restricts the result.
\<close>

theorem getProducts_both_filters_at_failing_input:
  "listedProductIds
     (getProducts exampleDb \<lparr>q_categoryIds = Some ''[1]'', q_name = Some ''ap''\<rparr>) = [22, 21] \<and>
   \<not> associated exampleDb 21 1 \<and>
   matchingProductIds exampleDb [1] = [20, 22]"
  by code_simp

section \<open>editProduct on a product that does not exist\<close>



section \<open>editProduct replaces the associations\<close>




section \<open>addProduct\<close>

text \<open>
  C5, as the code has it. \<open>addProduct\<close> answers \<open>Category not found\<close> only when none of
  the supplied ids is the id of an existing category, and a request with a fresh name
  and at least one existing id is never answered with a 400: one existing id is enough
  for the category check. The association rows are
  built from the supplied list as it is, so a successful call has inserted the product
  row and exactly one association row per supplied id, and answers with the product and
  the categories of these rows. The insert is subject to the foreign key and the
  composite primary key of the association table: on success every supplied id exists
  and no id is repeated.
\<close>

theorem addProduct_category_check_and_inserts:
  "(fst (addProduct now db req) =
      Response \<lparr>r_code = 400, r_message = ''Category not found'', r_status = ''error'',
                r_data = NoData, r_cookies = []\<rparr> \<longrightarrow>
      \<not> list_ex (\<lambda>c. c \<in> set (map c_id (categories db))) (a_categoryIds req)) \<and>
   (a_name req \<notin> set (map p_name (products db)) \<and>
    list_ex (\<lambda>c. c \<in> set (map c_id (categories db))) (a_categoryIds req) \<and>
    fst (addProduct now db req) = Response r0 \<longrightarrow> r_code r0 = 200) \<and>
   (addProduct now db req = (Response r, db') \<and> r_code r = 200 \<longrightarrow>
      (\<exists>row cats.
         r_data r = ProductDetail (Some row) cats \<and>
         r_message r = ''Product added successfully'' \<and>
         p_name row = a_name req \<and> p_price row = a_price req \<and>
         products db' = products db @ [row] \<and>
         productCategories db' =
           productCategories db @
           map (\<lambda>c. \<lparr>pc_productId = p_id row, pc_categoryId = c\<rparr>) (a_categoryIds req) \<and>
         list_all (\<lambda>c. c \<in> set (map c_id (categories db))) (a_categoryIds req) \<and>
         distinct (a_categoryIds req) \<and>
         (constraintsHold db \<longrightarrow> map cv_id cats = a_categoryIds req)))"
proof (intro conjI impI)
  assume "fst (addProduct now db req) =
      Response \<lparr>r_code = 400, r_message = ''Category not found'', r_status = ''error'',
                r_data = NoData, r_cookies = []\<rparr>"
  then show "\<not> list_ex (\<lambda>c. c \<in> set (map c_id (categories db))) (a_categoryIds req)"
    using addProduct_category_not_found [of now db req] by (simp add: jsonResponse_def)
next
  assume "a_name req \<notin> set (map p_name (products db)) \<and>
    list_ex (\<lambda>c. c \<in> set (map c_id (categories db))) (a_categoryIds req) \<and>
    fst (addProduct now db req) = Response r0"
  then show "r_code r0 = 200"
    using addProduct_category_check_passed [of req db now r0] by blast
next
  assume a: "addProduct now db req = (Response r, db') \<and> r_code r = 200"
  define row where "row = \<lparr>p_id = products_id_seq db + 1, p_name = a_name req,
      p_price = a_price req, p_createdAt = now, p_updatedAt = now\<rparr>"
  define cats where
    "cats = map (\<lambda>x. toCategoryView (snd x)) (productWithCategories (p_id row) db')"
  note s = addProduct_success [of now db req r db', folded row_def]
  have a1: "addProduct now db req = (Response r, db')" and a2: "r_code r = 200"
    using a by simp_all
  have ids: "map cv_id cats = a_categoryIds req" if c: "constraintsHold db"
  proof -
    have c': "constraintsHold db'"
      using s(8) [OF a1 a2 c] .
    have old: "filter (\<lambda>pc. pc_productId pc = p_id row) (productCategories db) = []"
    proof -
      have "pc_productId pc \<in> set (map p_id (products db))"
        if "pc \<in> set (productCategories db)" for pc
        using c that by (simp add: constraintsHold_def foreignKeysHold_def list_all_iff)
      then show ?thesis
        using s(6) [OF a1 a2] unfolding filter_empty_conv by metis
    qed
    have "map cv_id cats =
          map pc_categoryId (filter (\<lambda>pc. pc_productId pc = p_id row) (productCategories db'))"
      using productWithCategories_ids [of db' "p_id row"] c'
      by (simp add: cats_def constraintsHold_def comp_def)
    also have "\<dots> = a_categoryIds req"
      unfolding s(3) [OF a1 a2] by (simp add: old comp_def)
    finally show ?thesis .
  qed
  show "\<exists>row cats.
         r_data r = ProductDetail (Some row) cats \<and>
         r_message r = ''Product added successfully'' \<and>
         p_name row = a_name req \<and> p_price row = a_price req \<and>
         products db' = products db @ [row] \<and>
         productCategories db' =
           productCategories db @
           map (\<lambda>c. \<lparr>pc_productId = p_id row, pc_categoryId = c\<rparr>) (a_categoryIds req) \<and>
         list_all (\<lambda>c. c \<in> set (map c_id (categories db))) (a_categoryIds req) \<and>
         distinct (a_categoryIds req) \<and>
         (constraintsHold db \<longrightarrow> map cv_id cats = a_categoryIds req)"
  proof (intro exI [of _ row] exI [of _ cats] conjI impI)
    show "r_data r = ProductDetail (Some row) cats"
      using s(7) [OF a1 a2] by (simp add: cats_def)
    show "r_message r = ''Product added successfully''"
      using s(7) [OF a1 a2] by simp
    show "p_name row = a_name req" "p_price row = a_price req"
      by (simp_all add: row_def)
    show "products db' = products db @ [row]"
      by (rule s(1) [OF a1 a2])
    show "productCategories db' =
           productCategories db @
           map (\<lambda>c. \<lparr>pc_productId = p_id row, pc_categoryId = c\<rparr>) (a_categoryIds req)"
      by (rule s(3) [OF a1 a2])
    show "list_all (\<lambda>c. c \<in> set (map c_id (categories db))) (a_categoryIds req)"
      by (rule s(4) [OF a1 a2])
    show "distinct (a_categoryIds req)"
      by (rule s(5) [OF a1 a2])
    show "map cv_id cats = a_categoryIds req" if "constraintsHold db"
      using that by (rule ids)
  qed
qed

theorem addProduct_category_check_and_inserts_witness:
  "''pear'' \<notin> set (map p_name (products exampleDb)) \<and>
   list_ex (\<lambda>c. c \<in> set (map c_id (categories exampleDb))) [2, 1] \<and>
   constraintsHold exampleDb \<and>
   fst (addProduct 500 exampleDb \<lparr>a_name = ''pear'', a_price = 2, a_categoryIds = [2, 1]\<rparr>) =
     Response
       \<lparr>r_code = 200, r_message = ''Product added successfully'', r_status = ''success'',
          r_data = ProductDetail
            (Some \<lparr>p_id = 23, p_name = ''pear'', p_price = 2, p_createdAt = 500, p_updatedAt = 500\<rparr>)
            [\<lparr>cv_id = 2, cv_name = Some ''books''\<rparr>, \<lparr>cv_id = 1, cv_name = Some ''electronics''\<rparr>],
          r_cookies = setAuthCookies 23\<rparr> \<and>
   productCategories
     (snd (addProduct 500 exampleDb \<lparr>a_name = ''pear'', a_price = 2, a_categoryIds = [2, 1]\<rparr>)) =
     productCategories exampleDb @
     [\<lparr>pc_productId = 23, pc_categoryId = 2\<rparr>, \<lparr>pc_productId = 23, pc_categoryId = 1\<rparr>] \<and>
   fst (addProduct 500 exampleDb \<lparr>a_name = ''pear'', a_price = 2, a_categoryIds = [98, 99]\<rparr>) =
     Response \<lparr>r_code = 400, r_message = ''Category not found'', r_status = ''error'',
               r_data = NoData, r_cookies = []\<rparr> \<and>
   \<not> list_ex (\<lambda>c. c \<in> set (map c_id (categories exampleDb))) [98, 99]"
proof -
  let ?req = "\<lparr>a_name = ''pear'', a_price = 2, a_categoryIds = [2, 1]\<rparr>"
  let ?bad = "\<lparr>a_name = ''pear'', a_price = 2, a_categoryIds = [98, 99]\<rparr>"
  let ?row = "\<lparr>p_id = 23, p_name = ''pear'', p_price = 2, p_createdAt = 500, p_updatedAt = 500\<rparr>"
  let ?r = "\<lparr>r_code = 200, r_message = ''Product added successfully'', r_status = ''success'',
          r_data = ProductDetail (Some ?row)
            [\<lparr>cv_id = 2, cv_name = Some ''books''\<rparr>, \<lparr>cv_id = 1, cv_name = Some ''electronics''\<rparr>],
          r_cookies = setAuthCookies 23\<rparr>"
  have h1: "''pear'' \<notin> set (map p_name (products exampleDb))" by (simp add: exampleDb_def)
  have h2: "list_ex (\<lambda>c. c \<in> set (map c_id (categories exampleDb))) [2, 1]"
    by (simp add: exampleDb_def)
  have h3: "constraintsHold exampleDb" by code_simp
  have e0: "addProduct 500 exampleDb ?req = (Response ?r, exampleDbAfterAdd)"
    by (rule addProduct_example)
  then have e1: "fst (addProduct 500 exampleDb ?req) = Response ?r"
    by simp
  have e: "addProduct 500 exampleDb ?req = (Response ?r, snd (addProduct 500 exampleDb ?req))"
    using e0 by simp
  have c: "r_code ?r = 200" by simp
  note t = addProduct_category_check_and_inserts
    [of 500 exampleDb ?req ?r ?r "snd (addProduct 500 exampleDb ?req)"]
  from t [THEN conjunct2, THEN conjunct2, rule_format, OF conjI [OF e c]]
  obtain row cats where
    d: "r_data ?r = ProductDetail (Some row) cats" and
    pcs: "productCategories (snd (addProduct 500 exampleDb ?req)) =
           productCategories exampleDb @
           map (\<lambda>c. \<lparr>pc_productId = p_id row, pc_categoryId = c\<rparr>) (a_categoryIds ?req)"
    by (elim exE conjE) (rule that)
  from d have "row = ?row" by simp
  then have r2: "productCategories (snd (addProduct 500 exampleDb ?req)) =
     productCategories exampleDb @
     [\<lparr>pc_productId = 23, pc_categoryId = 2\<rparr>, \<lparr>pc_productId = 23, pc_categoryId = 1\<rparr>]"
    using pcs by simp
  have e2: "fst (addProduct 500 exampleDb ?bad) =
     Response \<lparr>r_code = 400, r_message = ''Category not found'', r_status = ''error'',
               r_data = NoData, r_cookies = []\<rparr>"
    by code_simp
  have r3: "\<not> list_ex (\<lambda>c. c \<in> set (map c_id (categories exampleDb))) [98, 99]"
    using addProduct_category_check_and_inserts [of 500 exampleDb ?bad, THEN conjunct1, rule_format, OF e2]
    by simp
  show ?thesis
    by (intro conjI h1 h2 h3 e1 r2 e2 r3)
qed

text \<open>A supplied list with one existing and one missing category id: the category check
  lets it pass, the insert of the association rows breaks the foreign key, and the
  transaction is rolled back. Nothing is inserted (the sequence alone has advanced) and no response
  is sent.\<close>

theorem addProduct_category_check_and_inserts_counterexample:
  "addProduct 500 exampleDb \<lparr>a_name = ''pear'', a_price = 2, a_categoryIds = [1, 99]\<rparr> =
     (Threw DatabaseError, exampleDb\<lparr>products_id_seq := 23\<rparr>) \<and>
   1 \<in> set (map c_id (categories exampleDb)) \<and>
   99 \<notin> set (map c_id (categories exampleDb))"
  by code_simp

section \<open>The auth cookies\<close>

text \<open>
  C10: a successful \<open>addProduct\<close> sets two cookies on the path \<open>/\<close>, \<open>access_token\<close>
  (token expiry and Max-Age 60 seconds) and \<open>refresh_token\<close> (7 days), whose payload is
  the id of the product just created. No other response of \<open>addProduct\<close> and no response of
  \<open>getProducts\<close>, \<open>editProduct\<close>, \<open>deleteProduct\<close>, \<open>getCategories\<close> or \<open>addCategory\<close>
  sets a cookie.
\<close>

theorem only_addProduct_sets_auth_cookies:
  "(addProduct now db a = (Response r, db') \<and> r_code r = 200 \<longrightarrow>
      (\<exists>row cats.
         r_data r = ProductDetail (Some row) cats \<and>
         row \<in> set (products db') \<and> p_id row \<notin> set (map p_id (products db)) \<and>
         r_cookies r =
           [\<lparr>ck_name = ''access_token'', ck_value = JwtSign (p_id row) 60, ck_path = ''/'',
              ck_maxAge = 60, ck_httpOnly = True, ck_secure = True, ck_sameSite = ''None''\<rparr>,
            \<lparr>ck_name = ''refresh_token'', ck_value = JwtSign (p_id row) 604800,
              ck_path = ''/'', ck_maxAge = 604800, ck_httpOnly = True, ck_secure = True,
              ck_sameSite = ''None''\<rparr>])) \<and>
   (fst (addProduct now db a) = Response r \<and> r_code r \<noteq> 200 \<longrightarrow> r_cookies r = []) \<and>
   (getProducts db q = Response r \<longrightarrow> r_cookies r = []) \<and>
   (fst (editProduct now db e) = Response r \<longrightarrow> r_cookies r = []) \<and>
   (fst (deleteProduct db pid) = Response r \<longrightarrow> r_cookies r = []) \<and>
   (getCategories db = Response r \<longrightarrow> r_cookies r = []) \<and>
   (fst (addCategory now db n) = Response r \<longrightarrow> r_cookies r = [])"
proof (intro conjI impI)
  assume s: "addProduct now db a = (Response r, db') \<and> r_code r = 200"
  define row where "row = \<lparr>p_id = products_id_seq db + 1, p_name = a_name a,
      p_price = a_price a, p_createdAt = now, p_updatedAt = now\<rparr>"
  note f = addProduct_success [of now db a r db', folded row_def]
  have s1: "addProduct now db a = (Response r, db')" and s2: "r_code r = 200"
    using s by simp_all
  show "\<exists>row cats.
         r_data r = ProductDetail (Some row) cats \<and>
         row \<in> set (products db') \<and> p_id row \<notin> set (map p_id (products db)) \<and>
         r_cookies r =
           [\<lparr>ck_name = ''access_token'', ck_value = JwtSign (p_id row) 60, ck_path = ''/'',
              ck_maxAge = 60, ck_httpOnly = True, ck_secure = True, ck_sameSite = ''None''\<rparr>,
            \<lparr>ck_name = ''refresh_token'', ck_value = JwtSign (p_id row) 604800,
              ck_path = ''/'', ck_maxAge = 604800, ck_httpOnly = True, ck_secure = True,
              ck_sameSite = ''None''\<rparr>]"
  proof (intro exI [of _ row] exI conjI)
    show "r_data r = ProductDetail (Some row)
            (map (\<lambda>x. toCategoryView (snd x)) (productWithCategories (p_id row) db'))"
      using f(7) [OF s1 s2] by simp
    show "row \<in> set (products db')"
      using f(1) [OF s1 s2] by simp
    show "p_id row \<notin> set (map p_id (products db))"
      by (rule f(6) [OF s1 s2])
    show "r_cookies r =
           [\<lparr>ck_name = ''access_token'', ck_value = JwtSign (p_id row) 60, ck_path = ''/'',
              ck_maxAge = 60, ck_httpOnly = True, ck_secure = True, ck_sameSite = ''None''\<rparr>,
            \<lparr>ck_name = ''refresh_token'', ck_value = JwtSign (p_id row) 604800,
              ck_path = ''/'', ck_maxAge = 604800, ck_httpOnly = True, ck_secure = True,
              ck_sameSite = ''None''\<rparr>]"
      using f(7) [OF s1 s2] by (simp add: setAuthCookies_def)
  qed
next
  assume "fst (addProduct now db a) = Response r \<and> r_code r \<noteq> 200"
  then show "r_cookies r = []"
    by (auto simp: addProduct_def jsonResponse_def nextvalProducts_def Let_def
        split: if_splits sum.splits)
next
  assume "getProducts db q = Response r"
  then show "r_cookies r = []"
    by (auto simp: getProducts_def getProductsFiltered_eq jsonResponse_def
        split: sum.splits option.splits json_value.splits if_splits)
next
  assume "fst (editProduct now db e) = Response r"
  then show "r_cookies r = []"
    by (auto simp: editProduct_def jsonResponse_def split: if_splits sum.splits prod.splits)
next
  assume "fst (deleteProduct db pid) = Response r"
  then show "r_cookies r = []"
    by (auto simp: deleteProduct_def jsonResponse_def split: if_splits prod.splits)
next
  assume "getCategories db = Response r"
  then show "r_cookies r = []"
    by (auto simp: getCategories_def jsonResponse_def)
next
  assume "fst (addCategory now db n) = Response r"
  then show "r_cookies r = []"
    by (auto simp: addCategory_def jsonResponse_def nextvalCategories_def Let_def
        split: if_splits option.splits sum.splits)
qed

theorem only_addProduct_sets_auth_cookies_witness:
  "fst (addProduct 500 exampleDb \<lparr>a_name = ''pear'', a_price = 2, a_categoryIds = [2, 1]\<rparr>) =
     Response
       \<lparr>r_code = 200, r_message = ''Product added successfully'', r_status = ''success'',
          r_data = ProductDetail
            (Some \<lparr>p_id = 23, p_name = ''pear'', p_price = 2, p_createdAt = 500, p_updatedAt = 500\<rparr>)
            [\<lparr>cv_id = 2, cv_name = Some ''books''\<rparr>, \<lparr>cv_id = 1, cv_name = Some ''electronics''\<rparr>],
          r_cookies =
            [\<lparr>ck_name = ''access_token'', ck_value = JwtSign 23 60, ck_path = ''/'',
               ck_maxAge = 60, ck_httpOnly = True, ck_secure = True, ck_sameSite = ''None''\<rparr>,
             \<lparr>ck_name = ''refresh_token'', ck_value = JwtSign 23 604800, ck_path = ''/'',
               ck_maxAge = 604800, ck_httpOnly = True, ck_secure = True,
               ck_sameSite = ''None''\<rparr>]\<rparr> \<and>
   23 \<notin> set (map p_id (products exampleDb)) \<and>
   fst (deleteProduct exampleDb 20) =
     Response \<lparr>r_code = 200, r_message = ''Product deleted successfully'', r_status = ''success'',
               r_data = ProductRows
                 [\<lparr>p_id = 20, p_name = ''4'', p_price = 3, p_createdAt = 100, p_updatedAt = 100\<rparr>],
               r_cookies = []\<rparr>"
proof -
  let ?req = "\<lparr>a_name = ''pear'', a_price = 2, a_categoryIds = [2, 1]\<rparr>"
  let ?row = "\<lparr>p_id = 23, p_name = ''pear'', p_price = 2, p_createdAt = 500, p_updatedAt = 500\<rparr>"
  let ?cats = "[\<lparr>cv_id = 2, cv_name = Some ''books''\<rparr>, \<lparr>cv_id = 1, cv_name = Some ''electronics''\<rparr>]"
  obtain r db' where e: "addProduct 500 exampleDb ?req = (Response r, db')"
    and c: "r_code r = 200" and m: "r_message r = ''Product added successfully''"
    and st: "r_status r = ''success''" and d: "r_data r = ProductDetail (Some ?row) ?cats"
    using addProduct_example by simp
  note t = only_addProduct_sets_auth_cookies [of 500 exampleDb ?req r db']
  from t [THEN conjunct1, rule_format, OF conjI [OF e c]] obtain row cats where
    d': "r_data r = ProductDetail (Some row) cats" and
    fresh: "p_id row \<notin> set (map p_id (products exampleDb))" and
    ck: "r_cookies r =
           [\<lparr>ck_name = ''access_token'', ck_value = JwtSign (p_id row) 60, ck_path = ''/'',
              ck_maxAge = 60, ck_httpOnly = True, ck_secure = True, ck_sameSite = ''None''\<rparr>,
            \<lparr>ck_name = ''refresh_token'', ck_value = JwtSign (p_id row) 604800,
              ck_path = ''/'', ck_maxAge = 604800, ck_httpOnly = True, ck_secure = True,
              ck_sameSite = ''None''\<rparr>]"
    by (elim exE conjE) (rule that)
  have row: "row = ?row" using d d' by simp
  have r: "r = \<lparr>r_code = 200, r_message = ''Product added successfully'', r_status = ''success'',
          r_data = ProductDetail (Some ?row) ?cats,
          r_cookies =
            [\<lparr>ck_name = ''access_token'', ck_value = JwtSign 23 60, ck_path = ''/'',
               ck_maxAge = 60, ck_httpOnly = True, ck_secure = True, ck_sameSite = ''None''\<rparr>,
             \<lparr>ck_name = ''refresh_token'', ck_value = JwtSign 23 604800, ck_path = ''/'',
               ck_maxAge = 604800, ck_httpOnly = True, ck_secure = True,
               ck_sameSite = ''None''\<rparr>]\<rparr>"
    using c m st d ck row by (cases r) simp
  have r1: "fst (addProduct 500 exampleDb ?req) = Response
       \<lparr>r_code = 200, r_message = ''Product added successfully'', r_status = ''success'',
          r_data = ProductDetail (Some ?row) ?cats,
          r_cookies =
            [\<lparr>ck_name = ''access_token'', ck_value = JwtSign 23 60, ck_path = ''/'',
               ck_maxAge = 60, ck_httpOnly = True, ck_secure = True, ck_sameSite = ''None''\<rparr>,
             \<lparr>ck_name = ''refresh_token'', ck_value = JwtSign 23 604800, ck_path = ''/'',
               ck_maxAge = 604800, ck_httpOnly = True, ck_secure = True,
               ck_sameSite = ''None''\<rparr>]\<rparr>"
    using e r by simp
  have r2: "23 \<notin> set (map p_id (products exampleDb))"
    using fresh row by simp
  have r3: "fst (deleteProduct exampleDb 20) =
     Response \<lparr>r_code = 200, r_message = ''Product deleted successfully'', r_status = ''success'',
               r_data = ProductRows
                 [\<lparr>p_id = 20, p_name = ''4'', p_price = 3, p_createdAt = 100, p_updatedAt = 100\<rparr>],
               r_cookies = []\<rparr>"
    by code_simp
  show ?thesis
    by (intro conjI r1 r2 r3)
qed

end
